theory Spec2Isabelle
  imports Main "HOL-Library.Char_ord" "HOL-Library.List_Lexorder" "HOL-Library.AList"
begin

section \<open>Data model\<close>

text \<open>
  Go strings are byte sequences: \<^typ>\<open>string\<close> (a list of 8-bit \<^typ>\<open>char\<close>).
  With \<open>Char_ord\<close> and \<open>List_Lexorder\<close> the order on \<^typ>\<open>string\<close> is the bytewise
  lexicographic order, which is the order of Go's \<open><\<close> on strings and of \<open>sort.Strings\<close>.

  A Go \<open>map[string]string\<close> is an association list: \<open>m[k]\<close> with the comma-ok form is
  \<^term>\<open>map_of m k\<close>, the assignment \<open>m[k] = v\<close> is \<^term>\<open>AList.update k v m\<close>, and a
  \<open>range\<close> loop is a \<^const>\<open>fold\<close> over the entries.
\<close>

type_synonym gomap = "(string \<times> string) list"

type_synonym Quantity = int

text \<open>\<open>type secretType string\<close> with its five constants (package util).\<close>

datatype secretType =
    ProvisionerSecret
  | ControllerPublishSecret
  | NodeStageSecret
  | NodePublishSecret
  | ControllerExpandSecret

text \<open>The fields of \<open>v1.PersistentVolumeClaim\<close> that the importer reads or writes.\<close>

record PersistentVolumeClaim =
  pvc_Name :: string
  pvc_Namespace :: string
  pvc_Annotations :: gomap
  pvc_StorageClassName :: "string option"
  pvc_Requests :: "(string \<times> Quantity) list"
  pvc_AccessModes :: "string list"
  pvc_VolumeMode :: "string option"

record StorageClass =
  sc_Provisioner :: string
  sc_Parameters :: gomap

record SecretReference =
  sr_Namespace :: string
  sr_Name :: string

text \<open>
  The messages of \<open>validation.IsDNS1123Subdomain\<close> (k8s.io/apimachinery), by kind.
\<close>

datatype validation_msg = MaxLenError nat | RegexError

text \<open>
  Errors as values. Each \<open>fmt.Errorf\<close> of the source is a constructor carrying the
  arguments of its format string; an error handed back by a collaborator (file system,
  decoder, control plane) is \<open>ExternalError\<close>; a nil dereference is a panic.
\<close>

datatype error =
    ExternalError string
  | FailedToParseFile string error
  | NotPersistentVolumeClaim string
  | FailedToGetStorageClass string error
  | InvalidTokens "string list"
  | NotValidDNSName string string
  | OnlyNamespaceOrName string string gomap
  | NilPointerDereference

section \<open>Library functions used by the source\<close>

subsection \<open>Package strings\<close>

definition HasPrefix :: "string \<Rightarrow> string \<Rightarrow> bool" where
  "HasPrefix s prefix \<longleftrightarrow> length s \<ge> length prefix \<and> take (length prefix) s = prefix"

definition HasSuffix :: "string \<Rightarrow> string \<Rightarrow> bool" where
  "HasSuffix s suffix \<longleftrightarrow>
     length s \<ge> length suffix \<and> drop (length s - length suffix) s = suffix"

definition TrimSuffix :: "string \<Rightarrow> string \<Rightarrow> string" where
  "TrimSuffix s suffix =
     (if HasSuffix s suffix then take (length s - length suffix) s else s)"

subsection \<open>\<open>os.Expand\<close>\<close>

text \<open>
  \<open>os.Expand\<close> of the Go standard library (file \<open>os/env.go\<close>): it replaces \<open>${var}\<close>
  and \<open>$var\<close> in the string by what the mapping function returns for \<open>var\<close>.
\<close>

definition isShellSpecialVar :: "char \<Rightarrow> bool" where
  "isShellSpecialVar c \<longleftrightarrow> c \<in> set ''*#$@!?-0123456789''"

definition isAlphaNum :: "char \<Rightarrow> bool" where
  "isAlphaNum c \<longleftrightarrow>
     c = CHR ''_'' \<or> (CHR ''0'' \<le> c \<and> c \<le> CHR ''9'')
     \<or> (CHR ''a'' \<le> c \<and> c \<le> CHR ''z'') \<or> (CHR ''A'' \<le> c \<and> c \<le> CHR ''Z'')"

text \<open>
  \<open>getShellName s\<close> returns the name that begins \<open>s\<close> and the number of bytes it
  consumed. \<open>Expand\<close> calls it on a non-empty string only (Go would panic on \<open>s[0]\<close>
  otherwise). After an opening brace: a special variable closed at once is the name;
  else the name runs to the first closing brace (\<open>${}\<close> is bad syntax and consumes two
  bytes); with no closing brace, \<open>${\<close> is bad syntax and one byte is consumed.
\<close>

fun getShellName :: "string \<Rightarrow> string \<times> nat" where
  "getShellName (c # cs) =
     (if c = CHR ''{'' then
        (if length (c # cs) > 2 \<and> isShellSpecialVar (cs ! 0) \<and> cs ! 1 = CHR ''}''
         then ([cs ! 0], 3)
         else
           (let name = takeWhile (\<lambda>x. x \<noteq> CHR ''}'') cs in
            if length name = length cs then ([], 1)
            else if name = [] then ([], 2)
            else (name, length name + 2)))
      else if isShellSpecialVar c then ([c], 1)
      else
        (let name = takeWhile isAlphaNum (c # cs) in (name, length name)))"

text \<open>
  The mapping function of the source is a closure that also inserts into a set, so the
  model threads a state \<open>'s\<close> through the calls of the mapping, in the order of the
  scan. The argument is what is left of \<open>s\<close> from index \<open>j\<close> on; the result is the text
  appended to the buffer from there, so that the whole result is \<open>buf + s[i:]\<close>.
  A dollar sign that is the last byte is copied (\<open>j+1 < len(s)\<close> fails).
\<close>

function Expand :: "string \<Rightarrow> (string \<Rightarrow> 's \<Rightarrow> string \<times> 's) \<Rightarrow> 's \<Rightarrow> string \<times> 's" where
  "Expand [] mapping st = ([], st)"
| "Expand [c] mapping st = ([c], st)"
| "Expand (c # d # ds) mapping st =
     (if c = CHR ''$'' then
        (case getShellName (d # ds) of (name, w) \<Rightarrow>
           if name = [] \<and> w > 0 then
             Expand (drop w (d # ds)) mapping st
           else if name = [] then
             (case Expand (drop w (d # ds)) mapping st of (out, st') \<Rightarrow> (c # out, st'))
           else
             (case mapping name st of (val, st1) \<Rightarrow>
                (case Expand (drop w (d # ds)) mapping st1 of (out, st2) \<Rightarrow>
                   (val @ out, st2))))
      else
        (case Expand (d # ds) mapping st of (out, st') \<Rightarrow> (c # out, st')))"
  by pat_completeness auto
termination
  by (relation "measure (\<lambda>(s, mapping, st). length s)") auto

subsection \<open>\<open>sets.String\<close> (k8s.io/apimachinery)\<close>

text \<open>
  A set of strings; \<open>Insert\<close> is \<^const>\<open>insert\<close>, \<open>Len\<close> is \<^const>\<open>card\<close> and \<open>List\<close>
  returns the members sorted.
\<close>

definition sets_NewString :: "string set" where
  "sets_NewString = {}"

definition sets_List :: "string set \<Rightarrow> string list" where
  "sets_List s = sorted_list_of_set s"

subsection \<open>\<open>validation.IsDNS1123Subdomain\<close> (k8s.io/apimachinery)\<close>

text \<open>
  The library matches the value against the anchored regular expression
  \<open>[a-z0-9]([-a-z0-9]*[a-z0-9])?(\.[a-z0-9]([-a-z0-9]*[a-z0-9])?)*\<close> and bounds its
  length by 253; it returns one message for each check that fails. A string matches
  the expression when every piece between dots is a label: not empty, made of lower
  case alphanumerics and hyphens, beginning and ending with an alphanumeric.
\<close>

definition DNS1123SubdomainMaxLength :: nat where
  "DNS1123SubdomainMaxLength = 253"

definition isLowerAlnum :: "char \<Rightarrow> bool" where
  "isLowerAlnum c \<longleftrightarrow>
     (CHR ''a'' \<le> c \<and> c \<le> CHR ''z'') \<or> (CHR ''0'' \<le> c \<and> c \<le> CHR ''9'')"

definition dns1123Label :: "string \<Rightarrow> bool" where
  "dns1123Label l \<longleftrightarrow>
     l \<noteq> [] \<and> isLowerAlnum (hd l) \<and> isLowerAlnum (last l)
     \<and> list_all (\<lambda>c. isLowerAlnum c \<or> c = CHR ''-'') l"

fun splitOn :: "char \<Rightarrow> string \<Rightarrow> string list" where
  "splitOn sep [] = [[]]"
| "splitOn sep (c # cs) =
     (if c = sep then [] # splitOn sep cs
      else (case splitOn sep cs of [] \<Rightarrow> [[c]] | l # ls \<Rightarrow> (c # l) # ls))"

definition dns1123SubdomainRegexp :: "string \<Rightarrow> bool" where
  "dns1123SubdomainRegexp v \<longleftrightarrow> list_all dns1123Label (splitOn CHR ''.'' v)"

definition IsDNS1123Subdomain :: "string \<Rightarrow> validation_msg list" where
  "IsDNS1123Subdomain v =
     (if length v > DNS1123SubdomainMaxLength
      then [MaxLenError DNS1123SubdomainMaxLength] else [])
     @ (if \<not> dns1123SubdomainRegexp v then [RegexError] else [])"

section \<open>Package util: secret references\<close>

definition tokenPVNameKey :: string where
  "tokenPVNameKey = ''pv.name''"

definition tokenPVCNameKey :: string where
  "tokenPVCNameKey = ''pvc.name''"

definition tokenPVCNamespaceKey :: string where
  "tokenPVCNamespaceKey = ''pvc.namespace''"

fun nsKey :: "secretType \<Rightarrow> string" where
  "nsKey ProvisionerSecret = ''csi.storage.k8s.io/provisioner-secret-namespace''"
| "nsKey ControllerPublishSecret = ''csi.storage.k8s.io/controller-publish-secret-namespace''"
| "nsKey NodeStageSecret = ''csi.storage.k8s.io/node-stage-secret-namespace''"
| "nsKey NodePublishSecret = ''csi.storage.k8s.io/node-publish-secret-namespace''"
| "nsKey ControllerExpandSecret = ''csi.storage.k8s.io/controller-expand-secret-namespace''"

fun deprecatedNsKey :: "secretType \<Rightarrow> string" where
  "deprecatedNsKey ProvisionerSecret = ''provisioner-secret-namespace''"
| "deprecatedNsKey ControllerPublishSecret = ''controller-publish-secret-namespace''"
| "deprecatedNsKey NodeStageSecret = ''node-stage-secret-namespace''"
| "deprecatedNsKey NodePublishSecret = ''node-publish-secret-namespace''"
| "deprecatedNsKey ControllerExpandSecret = ''controller-expand-secret-namespace''"

fun nameKey :: "secretType \<Rightarrow> string" where
  "nameKey ProvisionerSecret = ''csi.storage.k8s.io/provisioner-secret-name''"
| "nameKey ControllerPublishSecret = ''csi.storage.k8s.io/controller-publish-secret-name''"
| "nameKey NodeStageSecret = ''csi.storage.k8s.io/node-stage-secret-name''"
| "nameKey NodePublishSecret = ''csi.storage.k8s.io/node-publish-secret-name''"
| "nameKey ControllerExpandSecret = ''csi.storage.k8s.io/controller-expand-secret-name''"

fun deprecatedNameKey :: "secretType \<Rightarrow> string" where
  "deprecatedNameKey ProvisionerSecret = ''provisioner-secret-name''"
| "deprecatedNameKey ControllerPublishSecret = ''controller-publish-secret-name''"
| "deprecatedNameKey NodeStageSecret = ''node-stage-secret-name''"
| "deprecatedNameKey NodePublishSecret = ''node-publish-secret-name''"
| "deprecatedNameKey ControllerExpandSecret = ''controller-expand-secret-name''"

text \<open>
  \<open>getSecretTemplate\<close>: each template is looked up under the canonical key and, when
  that misses, under the deprecated one. The option is the pair (value, ok) of the
  comma-ok lookup; a miss leaves the empty string in the template variable.
\<close>

definition getSecretTemplate :: "gomap \<Rightarrow> secretType \<Rightarrow> error + (string \<times> string)" where
  "getSecretTemplate scParams sType =
     (let ns = (case map_of scParams (nsKey sType) of
                  Some t \<Rightarrow> Some t
                | None \<Rightarrow> map_of scParams (deprecatedNsKey sType));
          nm = (case map_of scParams (nameKey sType) of
                  Some t \<Rightarrow> Some t
                | None \<Rightarrow> map_of scParams (deprecatedNameKey sType));
          nsTempl = (case ns of Some t \<Rightarrow> t | None \<Rightarrow> []);
          nameTempl = (case nm of Some t \<Rightarrow> t | None \<Rightarrow> []);
          nsOK = (ns \<noteq> None);
          nameOK = (nm \<noteq> None)
      in if nsOK \<noteq> nameOK then Inl (OnlyNamespaceOrName nsTempl nameTempl scParams)
         else if \<not> nsOK \<and> \<not> nameOK then Inr ([], [])
         else Inr (nsTempl, nameTempl))"

text \<open>
  The parameter set that \<open>resolveTemplate\<close> builds before it expands the template:
  the map literal, then for a name template the claim's name and one entry for each
  annotation.
\<close>

definition annotationToken :: "string \<Rightarrow> string" where
  "annotationToken k = ''pvc.annotations['' @ [CHR 0x27] @ k @ [CHR 0x27] @ '']''"

definition resolveParams :: "string \<Rightarrow> PersistentVolumeClaim \<Rightarrow> bool \<Rightarrow> gomap" where
  "resolveParams pvName pvc isName =
     (let params = [(tokenPVNameKey, pvName), (tokenPVCNamespaceKey, pvc_Namespace pvc)]
      in if isName then
           fold (\<lambda>(k, v) ps. AList.update (annotationToken k) v ps)
             (pvc_Annotations pvc)
             (AList.update tokenPVCNameKey (pvc_Name pvc) params)
         else params)"

text \<open>
  The closure handed to \<open>os.Expand\<close>, in \<open>resolveTemplate\<close> and in \<open>genVolumeHandle\<close>
  alike: it returns the value of the token, and records a token that the parameter set
  lacks (returning the zero value, the empty string). The set \<open>missingParams\<close> that
  the closure captures is the state.
\<close>

definition lookupToken :: "gomap \<Rightarrow> string \<Rightarrow> string set \<Rightarrow> string \<times> string set" where
  "lookupToken params k missingParams =
     (case map_of params k of
        Some v \<Rightarrow> (v, missingParams)
      | None \<Rightarrow> ([], insert k missingParams))"

definition resolveTemplate ::
  "string \<Rightarrow> string \<Rightarrow> PersistentVolumeClaim \<Rightarrow> bool \<Rightarrow> error + string" where
  "resolveTemplate template pvName pvc isName =
     (let params = resolveParams pvName pvc isName in
      case Expand template (lookupToken params) sets_NewString of
        (resolved, missingParams) \<Rightarrow>
          if card missingParams > 0 then Inl (InvalidTokens (sets_List missingParams))
          else if length (IsDNS1123Subdomain resolved) > 0
            then Inl (NotValidDNSName template resolved)
          else Inr resolved)"

text \<open>\<open>GetSecret\<close>: \<open>None\<close> is the nil secret reference.\<close>

definition GetSecret ::
  "gomap \<Rightarrow> secretType \<Rightarrow> string \<Rightarrow> PersistentVolumeClaim
     \<Rightarrow> error + SecretReference option" where
  "GetSecret scParams sType pvName pvc =
     (case getSecretTemplate scParams sType of
        Inl err \<Rightarrow> Inl err
      | Inr (nsTempl, nameTempl) \<Rightarrow>
          if nsTempl = [] \<or> nameTempl = [] then Inr None
          else
            (case resolveTemplate nsTempl pvName pvc False of
               Inl err \<Rightarrow> Inl err
             | Inr ns \<Rightarrow>
                 (case resolveTemplate nameTempl pvName pvc True of
                    Inl err \<Rightarrow> Inl err
                  | Inr name \<Rightarrow> Inr (Some \<lparr>sr_Namespace = ns, sr_Name = name\<rparr>))))"

section \<open>Package importer\<close>

subsection \<open>Collaborators\<close>

text \<open>
  What the importer builds for the control plane: the fields of \<open>v1.PersistentVolume\<close>
  that \<open>createPV\<close> fills in, with the claim reference and the CSI volume source
  flattened into the record.
\<close>

record PersistentVolume =
  pv_Name :: string
  pv_Annotations :: gomap
  pv_StorageClassName :: string
  pv_Capacity :: "(string \<times> Quantity) list"
  pv_AccessModes :: "string list"
  pv_ClaimRef_Kind :: string
  pv_ClaimRef_APIVersion :: string
  pv_ClaimRef_Namespace :: string
  pv_ClaimRef_Name :: string
  pv_CSI_Driver :: string
  pv_CSI_VolumeHandle :: string
  pv_CSI_ControllerPublishSecretRef :: "SecretReference option"
  pv_CSI_NodeStageSecretRef :: "SecretReference option"
  pv_CSI_NodePublishSecretRef :: "SecretReference option"
  pv_CSI_ControllerExpandSecretRef :: "SecretReference option"
  pv_CSI_VolumeAttributes :: gomap
  pv_CSI_FSType :: string
  pv_CSI_ReadOnly :: bool

text \<open>What the decoder can return: a claim, or an object of another kind.\<close>

datatype Object =
    PersistentVolumeClaimObject PersistentVolumeClaim
  | OtherObject string

type_synonym Config = nat

type_synonym Clientset = nat

text \<open>
  The external collaborators are parameters of the model: the file system, the
  deserializer, \<open>path.Join\<close>, the client configuration and the three control-plane
  calls. A create call returns its error, \<open>None\<close> for nil.
\<close>

record ext =
  BuildConfigFromFlags :: "string \<Rightarrow> string \<Rightarrow> error + Config"
  NewForConfig :: "Config \<Rightarrow> error + Clientset"
  ReadFile :: "string \<Rightarrow> error + string"
  Decode :: "string \<Rightarrow> error + Object"
  Join :: "string \<Rightarrow> string \<Rightarrow> string"
  StorageClasses_Get :: "Clientset \<Rightarrow> string \<Rightarrow> error + StorageClass"
  PersistentVolumes_Create :: "Clientset \<Rightarrow> PersistentVolume \<Rightarrow> error option"
  PersistentVolumeClaims_Create ::
    "Clientset \<Rightarrow> string \<Rightarrow> PersistentVolumeClaim \<Rightarrow> error option"

text \<open>The create calls a run issues, in order.\<close>

datatype api_call =
    CreatePersistentVolume PersistentVolume
  | CreatePersistentVolumeClaim string PersistentVolumeClaim

subsection \<open>The importer\<close>

definition pvPrefix :: string where
  "pvPrefix = ''pv-''"

definition tokenFsTypeKey :: string where
  "tokenFsTypeKey = ''csi.storage.k8s.io/fsType''"

definition csiParameterPrefix :: string where
  "csiParameterPrefix = ''csi.storage.k8s.io/''"

definition PersistentVolumeBlock :: string where
  "PersistentVolumeBlock = ''Block''"

definition ResourceStorage :: string where
  "ResourceStorage = ''storage''"

record VolumeImporter =
  v_cs :: Clientset
  v_namespace :: string
  v_templatePath :: string
  v_importParams :: gomap
  v_pvc :: PersistentVolumeClaim
  v_sc :: StorageClass
  v_pvName :: string
  v_volumeHandle :: string
  v_capacity :: Quantity
  v_attributes :: gomap
  v_readOnly :: bool
  v_volumeMode :: "string option"
  v_fsType :: string
  v_controllerPublishSecret :: "SecretReference option"
  v_nodeStageSecret :: "SecretReference option"
  v_nodePublishSecret :: "SecretReference option"
  v_controllerExpandSecret :: "SecretReference option"

definition parsePVCfile :: "ext \<Rightarrow> string \<Rightarrow> error + PersistentVolumeClaim" where
  "parsePVCfile x file =
     (case ReadFile x file of
        Inl err \<Rightarrow> Inl err
      | Inr f \<Rightarrow>
          (case Decode x f of
             Inl err \<Rightarrow> Inl err
           | Inr (PersistentVolumeClaimObject p) \<Rightarrow> Inr p
           | Inr (OtherObject _) \<Rightarrow> Inl (NotPersistentVolumeClaim file)))"

definition genVolumeHandle :: "ext \<Rightarrow> VolumeImporter \<Rightarrow> error + string" where
  "genVolumeHandle x v =
     (case ReadFile x (Join x (v_templatePath v) (sc_Provisioner (v_sc v))) of
        Inl err \<Rightarrow> Inl err
      | Inr template \<Rightarrow>
          (case Expand (TrimSuffix template [CHR 0x0A]) (lookupToken (v_importParams v))
                  sets_NewString of
             (volumeHandle, missingParams) \<Rightarrow>
               if card missingParams > 0 then Inl (InvalidTokens (sets_List missingParams))
               else Inr volumeHandle))"

text \<open>
  \<open>setSecret\<close> assigns the four secret fields in turn and returns at the first error;
  the field being assigned receives the nil that \<open>GetSecret\<close> returns with its error.
\<close>

definition setSecret :: "VolumeImporter \<Rightarrow> VolumeImporter \<times> error option" where
  "setSecret v =
     (case GetSecret (sc_Parameters (v_sc v)) ControllerPublishSecret (v_pvName v) (v_pvc v) of
        Inl err \<Rightarrow> (v\<lparr>v_controllerPublishSecret := None\<rparr>, Some err)
      | Inr s1 \<Rightarrow>
     (let v1 = v\<lparr>v_controllerPublishSecret := s1\<rparr> in
      case GetSecret (sc_Parameters (v_sc v1)) NodeStageSecret (v_pvName v1) (v_pvc v1) of
        Inl err \<Rightarrow> (v1\<lparr>v_nodeStageSecret := None\<rparr>, Some err)
      | Inr s2 \<Rightarrow>
     (let v2 = v1\<lparr>v_nodeStageSecret := s2\<rparr> in
      case GetSecret (sc_Parameters (v_sc v2)) NodePublishSecret (v_pvName v2) (v_pvc v2) of
        Inl err \<Rightarrow> (v2\<lparr>v_nodePublishSecret := None\<rparr>, Some err)
      | Inr s3 \<Rightarrow>
     (let v3 = v2\<lparr>v_nodePublishSecret := s3\<rparr> in
      case GetSecret (sc_Parameters (v_sc v3)) ControllerExpandSecret (v_pvName v3) (v_pvc v3) of
        Inl err \<Rightarrow> (v3\<lparr>v_controllerExpandSecret := None\<rparr>, Some err)
      | Inr s4 \<Rightarrow> (v3\<lparr>v_controllerExpandSecret := s4\<rparr>, None)))))"

definition genFsType :: "VolumeImporter \<Rightarrow> string" where
  "genFsType v =
     (if v_volumeMode v \<noteq> None \<and> the (v_volumeMode v) = PersistentVolumeBlock then []
      else
        (case map_of (sc_Parameters (v_sc v)) tokenFsTypeKey of
           Some fsType \<Rightarrow> fsType
         | None \<Rightarrow> []))"

definition genAttributes :: "VolumeImporter \<Rightarrow> gomap" where
  "genAttributes v =
     fold (\<lambda>(key, val) params.
             if \<not> HasPrefix key csiParameterPrefix then AList.update key val params
             else params)
       (sc_Parameters (v_sc v)) []"

text \<open>
  \<open>NewVolumeImporter\<close>. The record is built once the two pointers \<open>v.pvc\<close> and \<open>v.sc\<close>
  are known, with the zero value in every field not yet assigned; before that the
  function only returns errors. Dereferencing a nil \<open>StorageClassName\<close> panics. The
  error that \<open>setSecret\<close> returns is not looked at: the call is a statement.
\<close>

definition NewVolumeImporter ::
  "ext \<Rightarrow> string \<Rightarrow> string \<Rightarrow> string \<Rightarrow> gomap \<Rightarrow> string \<Rightarrow> error + VolumeImporter" where
  "NewVolumeImporter x kubeconfig ns file importParams templatePath =
     (case BuildConfigFromFlags x [] kubeconfig of
        Inl err \<Rightarrow> Inl err
      | Inr config \<Rightarrow>
     (case NewForConfig x config of
        Inl err \<Rightarrow> Inl err
      | Inr cs \<Rightarrow>
     (case parsePVCfile x file of
        Inl err \<Rightarrow> Inl (FailedToParseFile file err)
      | Inr pvc0 \<Rightarrow>
     (let pvc = pvc0\<lparr>pvc_Namespace := ns\<rparr> in
      case pvc_StorageClassName pvc of
        None \<Rightarrow> Inl NilPointerDereference
      | Some scName \<Rightarrow>
     (case StorageClasses_Get x cs scName of
        Inl err \<Rightarrow> Inl (FailedToGetStorageClass scName err)
      | Inr sc \<Rightarrow>
     (let v = \<lparr>v_cs = cs, v_namespace = ns, v_templatePath = templatePath,
                v_importParams = importParams, v_pvc = pvc, v_sc = sc,
                v_pvName = [], v_volumeHandle = [], v_capacity = 0, v_attributes = [],
                v_readOnly = False, v_volumeMode = None, v_fsType = [],
                v_controllerPublishSecret = None, v_nodeStageSecret = None,
                v_nodePublishSecret = None, v_controllerExpandSecret = None\<rparr>;
          v = v\<lparr>v_pvName := pvPrefix @ pvc_Name (v_pvc v)\<rparr>;
          v = v\<lparr>v_capacity :=
                 (case map_of (pvc_Requests (v_pvc v)) ResourceStorage of
                    Some q \<Rightarrow> q | None \<Rightarrow> 0)\<rparr>
      in case genVolumeHandle x v of
        Inl err \<Rightarrow> Inl err
      | Inr volumeHandle \<Rightarrow>
     (let v = v\<lparr>v_volumeHandle := volumeHandle\<rparr>;
          v = fst (setSecret v);
          v = v\<lparr>v_readOnly := False\<rparr>;
          v = v\<lparr>v_volumeMode := pvc_VolumeMode (v_pvc v)\<rparr>;
          v = v\<lparr>v_fsType := genFsType v\<rparr>;
          v = v\<lparr>v_attributes := genAttributes v\<rparr>
      in Inr v)))))))"

text \<open>
  \<open>createPV\<close> and \<open>createPVC\<close> return the calls they issued together with the error of
  the call.
\<close>

definition createPV :: "ext \<Rightarrow> VolumeImporter \<Rightarrow> api_call list \<times> error option" where
  "createPV x v =
     (case pvc_StorageClassName (v_pvc v) of
        None \<Rightarrow> ([], Some NilPointerDereference)
      | Some scName \<Rightarrow>
          (let pv = \<lparr>pv_Name = v_pvName v,
                     pv_Annotations =
                       [(''pv.kubernetes.io/provisioned-by'', sc_Provisioner (v_sc v))],
                     pv_StorageClassName = scName,
                     pv_Capacity = [(ResourceStorage, v_capacity v)],
                     pv_AccessModes = pvc_AccessModes (v_pvc v),
                     pv_ClaimRef_Kind = ''PersistentVolumeClaim'',
                     pv_ClaimRef_APIVersion = ''v1'',
                     pv_ClaimRef_Namespace = pvc_Namespace (v_pvc v),
                     pv_ClaimRef_Name = pvc_Name (v_pvc v),
                     pv_CSI_Driver = sc_Provisioner (v_sc v),
                     pv_CSI_VolumeHandle = v_volumeHandle v,
                     pv_CSI_ControllerPublishSecretRef = v_controllerPublishSecret v,
                     pv_CSI_NodeStageSecretRef = v_nodeStageSecret v,
                     pv_CSI_NodePublishSecretRef = v_nodePublishSecret v,
                     pv_CSI_ControllerExpandSecretRef = v_controllerExpandSecret v,
                     pv_CSI_VolumeAttributes = v_attributes v,
                     pv_CSI_FSType = v_fsType v,
                     pv_CSI_ReadOnly = v_readOnly v\<rparr>
           in ([CreatePersistentVolume pv], PersistentVolumes_Create x (v_cs v) pv)))"

definition createPVC :: "ext \<Rightarrow> VolumeImporter \<Rightarrow> api_call list \<times> error option" where
  "createPVC x v =
     ([CreatePersistentVolumeClaim (v_namespace v) (v_pvc v)],
      PersistentVolumeClaims_Create x (v_cs v) (v_namespace v) (v_pvc v))"

definition Import :: "ext \<Rightarrow> VolumeImporter \<Rightarrow> api_call list \<times> error option" where
  "Import x v =
     (case createPV x v of
        (calls1, Some err) \<Rightarrow> (calls1, Some err)
      | (calls1, None) \<Rightarrow>
          (case createPVC x v of
             (calls2, Some err) \<Rightarrow> (calls1 @ calls2, Some err)
           | (calls2, None) \<Rightarrow> (calls1 @ calls2, None)))"

subsection \<open>The command\<close>

text \<open>
  \<open>main\<close>, after the flags are parsed: the create calls issued and how the process
  ends (\<open>os.Exit(1)\<close> after either message, or a normal return).
\<close>

datatype exit =
    ExitOK
  | FailedToStartImporter error
  | FailedToImport string error

definition main ::
  "ext \<Rightarrow> string \<Rightarrow> string \<Rightarrow> string \<Rightarrow> gomap \<Rightarrow> string \<Rightarrow> api_call list \<times> exit" where
  "main x kubeconfig namespace file importParams templatePath =
     (case NewVolumeImporter x kubeconfig namespace file importParams templatePath of
        Inl err \<Rightarrow> ([], FailedToStartImporter err)
      | Inr v \<Rightarrow>
          (case Import x v of
             (calls, Some err) \<Rightarrow> (calls, FailedToImport file err)
           | (calls, None) \<Rightarrow> (calls, ExitOK)))"

section \<open>Notions used in the statements\<close>

text \<open>
  The names that \<^const>\<open>Expand\<close> hands to its mapping function, in the order of the
  scan: the placeholders of a template as the code reads them. The recursion is that of
  \<^const>\<open>Expand\<close> with the output left out (lemma \<open>placeholders_Expand\<close> below).
\<close>

function placeholders :: "string \<Rightarrow> string list" where
  "placeholders [] = []"
| "placeholders [c] = []"
| "placeholders (c # d # ds) =
     (if c = CHR ''$'' then
        (case getShellName (d # ds) of (name, w) \<Rightarrow>
           (if name = [] then [] else [name]) @ placeholders (drop w (d # ds)))
      else placeholders (d # ds))"
  by pat_completeness auto
termination
  by (relation "measure length") auto

text \<open>The placeholders of a template that a parameter set has no entry for.\<close>

definition uncovered :: "string \<Rightarrow> gomap \<Rightarrow> string set" where
  "uncovered template params = {k \<in> set (placeholders template). map_of params k = None}"

text \<open>
  A byte after which a dollar sign begins a name or a braced form for
  \<^const>\<open>getShellName\<close>, and the templates in which no dollar sign is followed by one.
\<close>

definition startsName :: "char \<Rightarrow> bool" where
  "startsName d \<longleftrightarrow> d = CHR ''{'' \<or> isShellSpecialVar d \<or> isAlphaNum d"

fun noExpansion :: "string \<Rightarrow> bool" where
  "noExpansion (c # d # ds) \<longleftrightarrow> \<not> (c = CHR ''$'' \<and> startsName d) \<and> noExpansion (d # ds)"
| "noExpansion _ \<longleftrightarrow> True"

text \<open>
  Written after the words of the specification, for comparison with the code: a
  template contains a placeholder of the form \<open>${name}\<close> when a dollar sign is followed
  by an opening brace, a non-empty name and a closing brace.
\<close>

fun bracedPlaceholder :: "string \<Rightarrow> bool" where
  "bracedPlaceholder (c # d # ds) \<longleftrightarrow>
     (c = CHR ''$'' \<and> d = CHR ''{''
        \<and> (let name = takeWhile (\<lambda>x. x \<noteq> CHR ''}'') ds
           in name \<noteq> [] \<and> length name < length ds))
     \<or> bracedPlaceholder (d # ds)"
| "bracedPlaceholder _ \<longleftrightarrow> False"

text \<open>
  Written after the words of the specification, for comparison with the code: a
  template is a sequence of pieces, each a text without dollar sign or a placeholder
  \<open>${name}\<close> whose name is not empty and has no closing brace. \<open>template_of\<close> is the
  string of the template, \<open>placeholder_names\<close> the names of its placeholders, one for
  each occurrence, and \<open>substituted\<close> the template with every placeholder replaced by
  its value in the parameter set.
\<close>

datatype segment = Text string | Placeholder string

fun render :: "segment \<Rightarrow> string" where
  "render (Text s) = s"
| "render (Placeholder name) = ''${'' @ name @ ''}''"

definition template_of :: "segment list \<Rightarrow> string" where
  "template_of segs = concat (map render segs)"

fun wellformed :: "segment \<Rightarrow> bool" where
  "wellformed (Text s) \<longleftrightarrow> CHR ''$'' \<notin> set s"
| "wellformed (Placeholder name) \<longleftrightarrow> name \<noteq> [] \<and> CHR ''}'' \<notin> set name"

fun placeholder_names :: "segment list \<Rightarrow> string list" where
  "placeholder_names [] = []"
| "placeholder_names (Text s # segs) = placeholder_names segs"
| "placeholder_names (Placeholder name # segs) = name # placeholder_names segs"

fun substitute :: "gomap \<Rightarrow> segment \<Rightarrow> string" where
  "substitute params (Text s) = s"
| "substitute params (Placeholder name) =
     (case map_of params name of Some v \<Rightarrow> v | None \<Rightarrow> [])"

definition substituted :: "gomap \<Rightarrow> segment list \<Rightarrow> string" where
  "substituted params segs = concat (map (substitute params) segs)"

definition isUpper :: "char \<Rightarrow> bool" where
  "isUpper c \<longleftrightarrow> CHR ''A'' \<le> c \<and> c \<le> CHR ''Z''"

section \<open>Example inputs\<close>

text \<open>
  A claim, a storage class and collaborators that always answer, for the closed
  instances below. The template store holds one template, for the driver
  \<open>csi.example.com\<close>.
\<close>

definition example_pvc :: PersistentVolumeClaim where
  "example_pvc =
     \<lparr>pvc_Name = ''foo'', pvc_Namespace = ''from-file'',
      pvc_Annotations = [(''team'', ''platform'')],
      pvc_StorageClassName = Some ''fast'', pvc_Requests = [(''storage'', 10)],
      pvc_AccessModes = [''ReadWriteOnce''], pvc_VolumeMode = None\<rparr>"

definition example_sc :: "gomap \<Rightarrow> StorageClass" where
  "example_sc params = \<lparr>sc_Provisioner = ''csi.example.com'', sc_Parameters = params\<rparr>"

definition example_ext :: "string \<Rightarrow> gomap \<Rightarrow> ext" where
  "example_ext template params =
     \<lparr>BuildConfigFromFlags = (\<lambda>masterUrl kubeconfig. Inr 0),
      NewForConfig = (\<lambda>config. Inr 0),
      ReadFile = (\<lambda>path.
         if path = ''pvc.yaml'' then Inr ''claim''
         else if path = ''/etc/importvolume/csi.example.com'' then Inr template
         else Inl (ExternalError ''no such file'')),
      Decode = (\<lambda>bytes. Inr (PersistentVolumeClaimObject example_pvc)),
      Join = (\<lambda>dir file. dir @ ''/'' @ file),
      StorageClasses_Get = (\<lambda>cs name. Inr (example_sc params)),
      PersistentVolumes_Create = (\<lambda>cs pv. None),
      PersistentVolumeClaims_Create = (\<lambda>cs ns pvc. None)\<rparr>"

definition example_importer :: "gomap \<Rightarrow> gomap \<Rightarrow> VolumeImporter" where
  "example_importer importParams params =
     \<lparr>v_cs = 0, v_namespace = ''ns1'', v_templatePath = ''/etc/importvolume'',
      v_importParams = importParams, v_pvc = example_pvc\<lparr>pvc_Namespace := ''ns1''\<rparr>,
      v_sc = example_sc params, v_pvName = ''pv-foo'', v_volumeHandle = [],
      v_capacity = 10, v_attributes = [], v_readOnly = False, v_volumeMode = None,
      v_fsType = [], v_controllerPublishSecret = None, v_nodeStageSecret = None,
      v_nodePublishSecret = None, v_controllerExpandSecret = None\<rparr>"

text \<open>
  A storage class configuration with a filesystem type and a node-stage secret, the
  template of the driver, and the importer that \<open>NewVolumeImporter\<close> returns for them.
\<close>

definition example_params :: gomap where
  "example_params =
     [(''csi.storage.k8s.io/fsType'', ''ext4''),
      (''csi.storage.k8s.io/node-stage-secret-namespace'', ''${pvc.namespace}''),
      (''csi.storage.k8s.io/node-stage-secret-name'', ''${pv.name}-stage''),
      (''type'', ''ssd'')]"

definition example_template :: string where
  "example_template = ''vol-${size}'' @ [CHR 0x0A]"

definition example_imported :: VolumeImporter where
  "example_imported =
     (example_importer [(''size'', ''10Gi'')] example_params)
       \<lparr>v_volumeHandle := ''vol-10Gi'', v_attributes := [(''type'', ''ssd'')],
        v_fsType := ''ext4'',
        v_nodeStageSecret := Some \<lparr>sr_Namespace = ''ns1'', sr_Name = ''pv-foo-stage''\<rparr>\<rparr>"

section \<open>Properties of the library functions\<close>

declare getShellName.simps [simp del]
declare Expand.simps(3) [simp del]
declare placeholders.simps(3) [simp del]

text \<open>The state after an expansion: the mapping applied to the placeholders in turn.\<close>

lemma Expand_state:
  "snd (Expand s m st) = fold (\<lambda>k st. snd (m k st)) (placeholders s) st"
proof (induction s m st rule: Expand.induct)
  case (3 c d ds mapping st)
  obtain name w where g: "getShellName (d # ds) = (name, w)"
    by (cases "getShellName (d # ds)")
  show ?case
  proof (cases "c = CHR ''$''")
    case False
    with 3(4) show ?thesis
      by (simp add: Expand.simps(3) placeholders.simps(3) split_beta)
  next
    case dollar: True
    show ?thesis
    proof (cases "name = []")
      case n: True
      show ?thesis
      proof (cases "w > 0")
        case True
        with 3(1)[OF dollar g[symmetric]] n g dollar show ?thesis
          by (simp add: Expand.simps(3) placeholders.simps(3))
      next
        case False
        with 3(2)[OF dollar g[symmetric]] n g dollar show ?thesis
          by (simp add: Expand.simps(3) placeholders.simps(3) split_beta)
      qed
    next
      case n: False
      obtain val st1 where ms: "mapping name st = (val, st1)"
        by (cases "mapping name st")
      from 3(3)[OF dollar g[symmetric] _ n ms[symmetric]] n g ms dollar
      show ?thesis
        by (simp add: Expand.simps(3) placeholders.simps(3) split_beta)
    qed
  qed
qed simp_all

lemma placeholders_Expand:
  "snd (Expand s (\<lambda>k ks. ([], ks @ [k])) []) = placeholders s"
proof -
  have "fold (\<lambda>k ks. ks @ [k]) xs acc = acc @ xs" for xs acc :: "string list"
    by (induction xs arbitrary: acc) simp_all
  then show ?thesis
    by (simp add: Expand_state)
qed

lemma fold_lookupToken:
  "fold (\<lambda>k st. snd (lookupToken p k st)) ks M = M \<union> {k \<in> set ks. map_of p k = None}"
  by (induction ks arbitrary: M) (auto simp: lookupToken_def split: option.splits)

lemma Expand_missing:
  "snd (Expand s (lookupToken p) sets_NewString) = uncovered s p"
  by (simp add: Expand_state fold_lookupToken uncovered_def sets_NewString_def)

lemma finite_uncovered: "finite (uncovered s p)"
  by (simp add: uncovered_def)

lemma getShellName_plain: "\<not> startsName d \<Longrightarrow> getShellName (d # ds) = ([], 0)"
  by (simp add: startsName_def getShellName.simps)

lemma Expand_noExpansion: "noExpansion s \<Longrightarrow> Expand s m st = (s, st)"
proof (induction s m st rule: Expand.induct)
  case (3 c d ds mapping st)
  then show ?case
    by (cases "c = CHR ''$''") (simp_all add: Expand.simps(3) getShellName_plain)
qed simp_all

lemma noExpansion_no_dollar: "CHR ''$'' \<notin> set s \<Longrightarrow> noExpansion s"
  by (induction s rule: noExpansion.induct) auto

lemma placeholders_noExpansion: "noExpansion s \<Longrightarrow> placeholders s = []"
  by (induction s rule: placeholders.induct)
     (auto simp: placeholders.simps(3) getShellName_plain)

section \<open>Template resolution\<close>

text \<open>
  Both functions that expand a template, with the set of missing tokens computed: the
  set that the closure collects is the set of uncovered placeholders.
\<close>

lemma resolveTemplate_eq:
  "resolveTemplate t pvName pvc isName =
     (let params = resolveParams pvName pvc isName;
          r = fst (Expand t (lookupToken params) sets_NewString)
      in if uncovered t params \<noteq> {}
           then Inl (InvalidTokens (sorted_list_of_set (uncovered t params)))
         else if IsDNS1123Subdomain r \<noteq> [] then Inl (NotValidDNSName t r)
         else Inr r)"
proof -
  obtain r M where e: "Expand t (lookupToken (resolveParams pvName pvc isName)) sets_NewString = (r, M)"
    by (cases "Expand t (lookupToken (resolveParams pvName pvc isName)) sets_NewString")
  from Expand_missing[of t "resolveParams pvName pvc isName"] e
  have M: "M = uncovered t (resolveParams pvName pvc isName)" by simp
  show ?thesis
    using e finite_uncovered[of t "resolveParams pvName pvc isName"]
    by (simp add: resolveTemplate_def M sets_List_def card_gt_0_iff Let_def)
qed

lemma genVolumeHandle_eq:
  "genVolumeHandle x v =
     (case ReadFile x (Join x (v_templatePath v) (sc_Provisioner (v_sc v))) of
        Inl err \<Rightarrow> Inl err
      | Inr raw \<Rightarrow>
          (let t = TrimSuffix raw [CHR 0x0A] in
           if uncovered t (v_importParams v) \<noteq> {}
             then Inl (InvalidTokens (sorted_list_of_set (uncovered t (v_importParams v))))
           else Inr (fst (Expand t (lookupToken (v_importParams v)) sets_NewString))))"
proof (cases "ReadFile x (Join x (v_templatePath v) (sc_Provisioner (v_sc v)))")
  case (Inl e)
  then show ?thesis by (simp add: genVolumeHandle_def)
next
  case (Inr raw)
  obtain r M where e: "Expand (TrimSuffix raw [CHR 0x0A]) (lookupToken (v_importParams v)) sets_NewString = (r, M)"
    by (cases "Expand (TrimSuffix raw [CHR 0x0A]) (lookupToken (v_importParams v)) sets_NewString")
  from Expand_missing[of "TrimSuffix raw [CHR 0x0A]" "v_importParams v"] e
  have M: "M = uncovered (TrimSuffix raw [CHR 0x0A]) (v_importParams v)" by simp
  show ?thesis
    using e Inr finite_uncovered[of "TrimSuffix raw [CHR 0x0A]" "v_importParams v"]
    by (simp add: genVolumeHandle_def M sets_List_def card_gt_0_iff Let_def)
qed

text \<open>
  The code on a template of the specification's form: the expansion replaces every
  placeholder by its value and collects the names without an entry.
\<close>

lemma Expand_text:
  "CHR ''$'' \<notin> set s \<Longrightarrow>
     Expand (s @ rest) m st = (s @ fst (Expand rest m st), snd (Expand rest m st))"
proof (induction s)
  case Nil
  show ?case by simp
next
  case (Cons c s)
  then have c: "c \<noteq> CHR ''$''" and ih: "Expand (s @ rest) m st
      = (s @ fst (Expand rest m st), snd (Expand rest m st))"
    by auto
  show ?case
  proof (cases "s @ rest")
    case Nil
    then show ?thesis by simp
  next
    case (Cons d ds)
    have "Expand (c # d # ds) m st
            = (case Expand (d # ds) m st of (out, st') \<Rightarrow> (c # out, st'))"
      using c by (simp add: Expand.simps(3))
    with Cons ih show ?thesis by simp
  qed
qed

lemma getShellName_braced:
  assumes "name \<noteq> []" "CHR ''}'' \<notin> set name"
  shows "getShellName (CHR ''{'' # name @ CHR ''}'' # rest) = (name, length name + 2)"
proof -
  have tw: "takeWhile (\<lambda>x. x \<noteq> CHR ''}'') (name @ CHR ''}'' # rest) = name"
    using assms(2) by (subst takeWhile_append2) auto
  obtain a as where n: "name = a # as" using assms(1) by (cases name) auto
  show ?thesis
  proof (cases "isShellSpecialVar a \<and> (as @ CHR ''}'' # rest) ! 0 = CHR ''}''")
    case True
    with assms(2) n have "as = []" by (cases as) auto
    with True n show ?thesis by (simp add: getShellName.simps)
  next
    case False
    with tw n show ?thesis
      by (auto simp: getShellName.simps Let_def)
  qed
qed

lemma Expand_placeholder:
  assumes "name \<noteq> []" "CHR ''}'' \<notin> set name"
  shows "Expand (''${'' @ name @ ''}'' @ rest) m st =
           (case m name st of (val, st1) \<Rightarrow>
              (case Expand rest m st1 of (out, st2) \<Rightarrow> (val @ out, st2)))"
proof -
  have "Expand (CHR ''$'' # CHR ''{'' # name @ CHR ''}'' # rest) m st =
           (case m name st of (val, st1) \<Rightarrow>
              (case Expand rest m st1 of (out, st2) \<Rightarrow> (val @ out, st2)))"
    using assms(1) by (simp add: Expand.simps(3) getShellName_braced[OF assms])
  then show ?thesis by simp
qed

lemma Expand_template_of:
  "list_all wellformed segs \<Longrightarrow>
     Expand (template_of segs) (lookupToken params) M
       = (substituted params segs,
          M \<union> {n \<in> set (placeholder_names segs). map_of params n = None})"
proof (induction segs arbitrary: M)
  case Nil
  show ?case by (simp add: template_of_def substituted_def)
next
  case (Cons seg segs)
  then have ih: "\<And>M. Expand (template_of segs) (lookupToken params) M
       = (substituted params segs,
          M \<union> {n \<in> set (placeholder_names segs). map_of params n = None})"
    by simp
  have t: "template_of (g # segs) = render g @ template_of segs" for g
    by (simp add: template_of_def)
  show ?case
  proof (cases seg)
    case (Text s)
    with Cons.prems have d: "CHR ''$'' \<notin> set s" by simp
    have "Expand (template_of (seg # segs)) (lookupToken params) M
            = Expand (s @ template_of segs) (lookupToken params) M"
      using Text by (simp add: t)
    also have "\<dots> = (s @ fst (Expand (template_of segs) (lookupToken params) M),
                       snd (Expand (template_of segs) (lookupToken params) M))"
      by (rule Expand_text[OF d])
    also have "\<dots> = (substituted params (seg # segs),
          M \<union> {n \<in> set (placeholder_names (seg # segs)). map_of params n = None})"
      using Text by (simp add: ih substituted_def)
    finally show ?thesis .
  next
    case (Placeholder name)
    with Cons.prems have wf: "name \<noteq> []" "CHR ''}'' \<notin> set name" by simp_all
    have r: "render seg @ template_of segs = ''${'' @ name @ ''}'' @ template_of segs"
      using Placeholder by simp
    show ?thesis
      unfolding t[of seg] r Expand_placeholder[OF wf]
      using Placeholder
      by (auto simp: lookupToken_def ih substituted_def split: option.splits)
  qed
qed

lemma uncovered_template_of:
  "list_all wellformed segs \<Longrightarrow>
     uncovered (template_of segs) params
       = {n \<in> set (placeholder_names segs). map_of params n = None}"
  using Expand_template_of[of segs params sets_NewString]
    Expand_missing[of "template_of segs" params]
  by (simp add: sets_NewString_def)

lemma substituted_template_of:
  "list_all wellformed segs \<Longrightarrow>
     fst (Expand (template_of segs) (lookupToken params) sets_NewString)
       = substituted params segs"
  by (simp add: Expand_template_of)

text \<open>
  Claim C2, as stated, fails. \<open>os.Expand\<close> also reads the unbraced form \<open>$name\<close> as a
  placeholder: the driver template \<open>vol-$size\<close> has no placeholder of the form
  \<open>${name}\<close>, yet \<open>genVolumeHandle\<close> fails and reports the token \<open>size\<close>. And
  \<open>resolveTemplate\<close> also fails when the string it substituted is not a valid name,
  with no placeholder uncovered.
\<close>

theorem unbraced_missing_token_counterexample:
  "\<not> bracedPlaceholder ''vol-$size''
   \<and> ReadFile (example_ext ''vol-$size'' [])
        (Join (example_ext ''vol-$size'' [])
           (v_templatePath (example_importer [] []))
           (sc_Provisioner (v_sc (example_importer [] [])))) = Inr ''vol-$size''
   \<and> genVolumeHandle (example_ext ''vol-$size'' []) (example_importer [] [])
       = Inl (InvalidTokens [''size''])
   \<and> \<not> bracedPlaceholder ''My_Secret''
   \<and> resolveTemplate ''My_Secret'' ''pv-foo'' example_pvc True
       = Inl (NotValidDNSName ''My_Secret'' ''My_Secret'')"
  by code_simp

text \<open>
  Claim C2, amended. For every template made of text without dollar sign and of
  placeholders \<open>${name}\<close>, and every parameter set, \<open>resolveTemplate\<close> and
  \<open>genVolumeHandle\<close> fail with the missing-token error exactly when a placeholder has no
  entry in the parameter set; the tokens reported are the uncovered placeholder names,
  each once however often it occurs, sorted. A template with an uncovered placeholder
  never yields a string. When every placeholder is covered, every occurrence is
  replaced by its value: \<open>genVolumeHandle\<close> returns that string, and \<open>resolveTemplate\<close>
  returns it when it is a valid subdomain name and fails with the invalid-name error
  otherwise.
\<close>

theorem braced_missing_tokens_exact:
  assumes "list_all wellformed segs"
  shows
   "((\<exists>ms. resolveTemplate (template_of segs) pvName pvc isName = Inl (InvalidTokens ms))
       \<longleftrightarrow> {n \<in> set (placeholder_names segs).
              map_of (resolveParams pvName pvc isName) n = None} \<noteq> {})
    \<and> (\<forall>ms. resolveTemplate (template_of segs) pvName pvc isName = Inl (InvalidTokens ms)
          \<longrightarrow> set ms = {n \<in> set (placeholder_names segs).
                          map_of (resolveParams pvName pvc isName) n = None}
              \<and> sorted ms \<and> distinct ms)
    \<and> ({n \<in> set (placeholder_names segs).
           map_of (resolveParams pvName pvc isName) n = None} = {}
        \<longrightarrow> resolveTemplate (template_of segs) pvName pvc isName
              = (if IsDNS1123Subdomain (substituted (resolveParams pvName pvc isName) segs) = []
                 then Inr (substituted (resolveParams pvName pvc isName) segs)
                 else Inl (NotValidDNSName (template_of segs)
                            (substituted (resolveParams pvName pvc isName) segs))))
    \<and> (ReadFile x (Join x (v_templatePath v) (sc_Provisioner (v_sc v))) = Inr raw
         \<and> TrimSuffix raw [CHR 0x0A] = template_of segs
        \<longrightarrow> ((\<exists>e. genVolumeHandle x v = Inl e)
               \<longleftrightarrow> {n \<in> set (placeholder_names segs).
                      map_of (v_importParams v) n = None} \<noteq> {})
            \<and> (\<forall>e. genVolumeHandle x v = Inl e
                  \<longrightarrow> (\<exists>ms. e = InvalidTokens ms
                         \<and> set ms = {n \<in> set (placeholder_names segs).
                                       map_of (v_importParams v) n = None}
                         \<and> sorted ms \<and> distinct ms))
            \<and> ({n \<in> set (placeholder_names segs).
                   map_of (v_importParams v) n = None} = {}
                \<longrightarrow> genVolumeHandle x v = Inr (substituted (v_importParams v) segs)))"
proof -
  let ?p = "resolveParams pvName pvc isName"
  let ?U = "{n \<in> set (placeholder_names segs). map_of ?p n = None}"
  let ?V = "{n \<in> set (placeholder_names segs). map_of (v_importParams v) n = None}"
  have fU: "finite ?U" and fV: "finite ?V"
    by simp_all
  have uU: "uncovered (template_of segs) ?p = ?U"
    and uV: "uncovered (template_of segs) (v_importParams v) = ?V"
    by (rule uncovered_template_of[OF assms])+
  have sU: "fst (Expand (template_of segs) (lookupToken ?p) sets_NewString)
              = substituted ?p segs"
    and sV: "fst (Expand (template_of segs) (lookupToken (v_importParams v)) sets_NewString)
              = substituted (v_importParams v) segs"
    by (rule substituted_template_of[OF assms])+
  have req: "resolveTemplate (template_of segs) pvName pvc isName =
      (if ?U \<noteq> {} then Inl (InvalidTokens (sorted_list_of_set ?U))
       else if IsDNS1123Subdomain (substituted ?p segs) \<noteq> []
         then Inl (NotValidDNSName (template_of segs) (substituted ?p segs))
       else Inr (substituted ?p segs))"
    by (simp only: resolveTemplate_eq Let_def uU sU)
  have r1: "(\<exists>ms. resolveTemplate (template_of segs) pvName pvc isName = Inl (InvalidTokens ms))
              \<longleftrightarrow> ?U \<noteq> {}"
    by (simp add: req)
  have r2: "set ms = ?U \<and> sorted ms \<and> distinct ms"
    if "resolveTemplate (template_of segs) pvName pvc isName = Inl (InvalidTokens ms)" for ms
    using that fU by (auto simp: req split: if_splits)
  have r3: "?U = {} \<longrightarrow> resolveTemplate (template_of segs) pvName pvc isName
              = (if IsDNS1123Subdomain (substituted ?p segs) = []
                 then Inr (substituted ?p segs)
                 else Inl (NotValidDNSName (template_of segs) (substituted ?p segs)))"
    by (simp add: req)
  have g: "((\<exists>e. genVolumeHandle x v = Inl e) \<longleftrightarrow> ?V \<noteq> {})
            \<and> (\<forall>e. genVolumeHandle x v = Inl e
                  \<longrightarrow> (\<exists>ms. e = InvalidTokens ms \<and> set ms = ?V \<and> sorted ms \<and> distinct ms))
            \<and> (?V = {} \<longrightarrow> genVolumeHandle x v = Inr (substituted (v_importParams v) segs))"
    if rd: "ReadFile x (Join x (v_templatePath v) (sc_Provisioner (v_sc v))) = Inr raw
         \<and> TrimSuffix raw [CHR 0x0A] = template_of segs"
  proof -
    have geq: "genVolumeHandle x v =
        (if ?V \<noteq> {} then Inl (InvalidTokens (sorted_list_of_set ?V))
         else Inr (substituted (v_importParams v) segs))"
      using rd by (simp add: genVolumeHandle_eq Let_def uV sV)
    show ?thesis
      using fV by (auto simp: geq)
  qed
  from r1 r2 r3 g show ?thesis
    by blast
qed

theorem braced_missing_tokens_exact_witness:
  "list_all wellformed
     [Text ''vol-'', Placeholder ''b'', Text ''-'', Placeholder ''a'', Text ''-'',
      Placeholder ''b'', Text ''-'', Placeholder ''size'']
   \<and> ReadFile (example_ext ''vol-${b}-${a}-${b}-${size}'' [])
        (Join (example_ext ''vol-${b}-${a}-${b}-${size}'' [])
           (v_templatePath (example_importer [(''size'', ''10Gi'')] []))
           (sc_Provisioner (v_sc (example_importer [(''size'', ''10Gi'')] []))))
       = Inr ''vol-${b}-${a}-${b}-${size}''
   \<and> TrimSuffix ''vol-${b}-${a}-${b}-${size}'' [CHR 0x0A]
       = template_of
           [Text ''vol-'', Placeholder ''b'', Text ''-'', Placeholder ''a'', Text ''-'',
            Placeholder ''b'', Text ''-'', Placeholder ''size'']
   \<and> (\<exists>e. genVolumeHandle (example_ext ''vol-${b}-${a}-${b}-${size}'' [])
             (example_importer [(''size'', ''10Gi'')] []) = Inl e)
   \<and> genVolumeHandle (example_ext ''vol-${b}-${a}-${b}-${size}'' [])
        (example_importer [(''size'', ''10Gi'')] []) = Inl (InvalidTokens [''a'', ''b''])
   \<and> list_all wellformed [Placeholder ''pv.name'', Text ''-'', Placeholder ''pv.name'']
   \<and> resolveTemplate (template_of [Placeholder ''pv.name'', Text ''-'', Placeholder ''pv.name''])
        ''pv-foo'' example_pvc False = Inr ''pv-foo-pv-foo''"
proof -
  let ?s1 = "[Text ''vol-'', Placeholder ''b'', Text ''-'', Placeholder ''a'', Text ''-'',
      Placeholder ''b'', Text ''-'', Placeholder ''size'']"
  let ?s2 = "[Placeholder ''pv.name'', Text ''-'', Placeholder ''pv.name'']"
  let ?x = "example_ext ''vol-${b}-${a}-${b}-${size}'' []"
  let ?v = "example_importer [(''size'', ''10Gi'')] []"
  have w1: "list_all wellformed ?s1" and w2: "list_all wellformed ?s2"
    by simp_all
  have h1: "ReadFile ?x (Join ?x (v_templatePath ?v) (sc_Provisioner (v_sc ?v)))
              = Inr ''vol-${b}-${a}-${b}-${size}''"
    by code_simp
  have h2: "TrimSuffix ''vol-${b}-${a}-${b}-${size}'' [CHR 0x0A] = template_of ?s1"
    by code_simp
  have u1: "{n \<in> set (placeholder_names ?s1). map_of (v_importParams ?v) n = None} \<noteq> {}"
    by code_simp
  have u2: "{n \<in> set (placeholder_names ?s2).
              map_of (resolveParams ''pv-foo'' example_pvc False) n = None} = {}"
    by code_simp
  have d2: "IsDNS1123Subdomain (substituted (resolveParams ''pv-foo'' example_pvc False) ?s2)
              = []"
    by code_simp
  have v2: "substituted (resolveParams ''pv-foo'' example_pvc False) ?s2 = ''pv-foo-pv-foo''"
    by code_simp
  have e1: "genVolumeHandle ?x ?v = Inl (InvalidTokens [''a'', ''b''])"
    by code_simp
  note T1 = braced_missing_tokens_exact[OF w1, where x = ?x and v = ?v
      and raw = "''vol-${b}-${a}-${b}-${size}''" and pvName = "''pv-foo''"
      and pvc = example_pvc and isName = False]
  note T2 = braced_missing_tokens_exact[OF w2, where x = ?x and v = ?v
      and raw = "''vol-${b}-${a}-${b}-${size}''" and pvName = "''pv-foo''"
      and pvc = example_pvc and isName = False]
  from T1[THEN conjunct2, THEN conjunct2, THEN conjunct2, THEN mp, OF conjI[OF h1 h2],
      THEN conjunct1] u1
  have c1: "\<exists>e. genVolumeHandle ?x ?v = Inl e"
    by (rule iffD2)
  from T2[THEN conjunct2, THEN conjunct2, THEN conjunct1, THEN mp, OF u2] d2 v2
  have c2: "resolveTemplate (template_of ?s2) ''pv-foo'' example_pvc False
              = Inr ''pv-foo-pv-foo''"
    by simp
  from w1 h1 h2 c1 e1 w2 c2 show ?thesis
    by (intro conjI)
qed


text \<open>
  Claim C3, as stated, fails: \<open>os.Expand\<close> also reads the unbraced form \<open>$name\<close> as a
  placeholder, so a template with no placeholder of the form \<open>${name}\<close> can fail; and
  it drops the bad syntax \<open>${}\<close>, so such a template can also come back changed.
\<close>

theorem unbraced_placeholder_counterexample:
  "\<not> bracedPlaceholder ''$x''
   \<and> resolveTemplate ''$x'' ''pv-foo'' example_pvc True = Inl (InvalidTokens [''x''])
   \<and> \<not> bracedPlaceholder ''a${}b''
   \<and> Expand ''a${}b'' (lookupToken []) sets_NewString = (''ab'', sets_NewString)"
  by code_simp

text \<open>
  Claim C3, amended. When no dollar sign of the template is followed by an opening
  brace, a shell special character or an alphanumeric (in particular when the template
  has no dollar sign), the expansion returns the template unchanged and records no
  missing token, for every parameter set. Then \<open>genVolumeHandle\<close> returns the
  template, and \<open>resolveTemplate\<close> returns it when it is a valid subdomain name and
  the invalid-name error otherwise.
\<close>

theorem plain_template_unchanged:
  assumes "noExpansion template"
  shows
   "Expand template (lookupToken params) sets_NewString = (template, sets_NewString)
    \<and> resolveTemplate template pvName pvc isName =
        (if IsDNS1123Subdomain template = [] then Inr template
         else Inl (NotValidDNSName template template))
    \<and> (ReadFile x (Join x (v_templatePath v) (sc_Provisioner (v_sc v))) = Inr raw
         \<and> TrimSuffix raw [CHR 0x0A] = template
       \<longrightarrow> genVolumeHandle x v = Inr template)"
  using assms
  by (simp add: Expand_noExpansion resolveTemplate_eq genVolumeHandle_eq Let_def
      uncovered_def placeholders_noExpansion)

theorem plain_template_unchanged_witness:
  "noExpansion ''pv-secret.a'' \<and> noExpansion ''cost: 5$ + $''
   \<and> resolveTemplate ''pv-secret.a'' ''pv-foo'' example_pvc True = Inr ''pv-secret.a''
   \<and> Expand ''cost: 5$ + $'' (lookupToken []) sets_NewString
       = (''cost: 5$ + $'', sets_NewString)"
proof -
  have h1: "noExpansion ''pv-secret.a''" and h2: "noExpansion ''cost: 5$ + $''"
    by code_simp+
  have v: "IsDNS1123Subdomain ''pv-secret.a'' = []"
    by code_simp
  from plain_template_unchanged[OF h1, of _ "''pv-foo''" example_pvc True] v
    plain_template_unchanged[OF h2, of "[]"] h1 h2
  show ?thesis by simp
qed

section \<open>Secret references\<close>

text \<open>
  Claim C4. For every secret category and every configuration map: when neither the
  namespace key nor the name key is present (canonical or deprecated), \<open>GetSecret\<close>
  returns no secret reference and no error; when exactly one of the two templates is
  present, it fails with the inconsistent-configuration error.
\<close>

theorem GetSecret_absent_or_inconsistent:
  "(map_of scParams (nsKey sType) = None \<and> map_of scParams (deprecatedNsKey sType) = None
      \<and> map_of scParams (nameKey sType) = None
      \<and> map_of scParams (deprecatedNameKey sType) = None
    \<longrightarrow> GetSecret scParams sType pvName pvc = Inr None)
   \<and> ((map_of scParams (nsKey sType) = None \<and> map_of scParams (deprecatedNsKey sType) = None)
        \<noteq> (map_of scParams (nameKey sType) = None
             \<and> map_of scParams (deprecatedNameKey sType) = None)
      \<longrightarrow> (\<exists>nsTempl nameTempl.
             GetSecret scParams sType pvName pvc
               = Inl (OnlyNamespaceOrName nsTempl nameTempl scParams)))"
  by (auto simp: GetSecret_def getSecretTemplate_def Let_def split: option.splits)

theorem GetSecret_absent_or_inconsistent_witness:
  "GetSecret [(''type'', ''ssd'')] NodeStageSecret ''pv-foo'' example_pvc = Inr None
   \<and> (\<exists>nsTempl nameTempl.
         GetSecret [(''node-stage-secret-name'', ''s'')] NodeStageSecret ''pv-foo'' example_pvc
           = Inl (OnlyNamespaceOrName nsTempl nameTempl [(''node-stage-secret-name'', ''s'')]))
   \<and> (\<exists>nsTempl nameTempl.
         GetSecret [(''csi.storage.k8s.io/node-stage-secret-namespace'', ''n'')]
             NodeStageSecret ''pv-foo'' example_pvc
           = Inl (OnlyNamespaceOrName nsTempl nameTempl
                    [(''csi.storage.k8s.io/node-stage-secret-namespace'', ''n'')]))"
  using GetSecret_absent_or_inconsistent[of "[(''type'', ''ssd'')]" NodeStageSecret
          "''pv-foo''" example_pvc]
        GetSecret_absent_or_inconsistent[of "[(''node-stage-secret-name'', ''s'')]"
          NodeStageSecret "''pv-foo''" example_pvc]
        GetSecret_absent_or_inconsistent[of
          "[(''csi.storage.k8s.io/node-stage-secret-namespace'', ''n'')]"
          NodeStageSecret "''pv-foo''" example_pvc]
  by simp

text \<open>
  Claim C5. When the canonical key of a field is present, the template is the value
  under the canonical key, whatever the deprecated alias holds; the value under the
  deprecated alias is the template only when the canonical key is absent.
\<close>

theorem canonical_key_precedence:
  "(map_of scParams (nsKey sType) = Some a \<and> map_of scParams (nameKey sType) = Some b
      \<longrightarrow> getSecretTemplate scParams sType = Inr (a, b))
   \<and> (map_of scParams (nsKey sType) = Some a \<and> map_of scParams (nameKey sType) = None
        \<and> map_of scParams (deprecatedNameKey sType) = Some b'
      \<longrightarrow> getSecretTemplate scParams sType = Inr (a, b'))
   \<and> (map_of scParams (nsKey sType) = None
        \<and> map_of scParams (deprecatedNsKey sType) = Some a'
        \<and> map_of scParams (nameKey sType) = Some b
      \<longrightarrow> getSecretTemplate scParams sType = Inr (a', b))
   \<and> (map_of scParams (nsKey sType) = None
        \<and> map_of scParams (deprecatedNsKey sType) = Some a'
        \<and> map_of scParams (nameKey sType) = None
        \<and> map_of scParams (deprecatedNameKey sType) = Some b'
      \<longrightarrow> getSecretTemplate scParams sType = Inr (a', b'))"
  by (simp add: getSecretTemplate_def Let_def)

theorem canonical_key_precedence_witness:
  "getSecretTemplate
     [(''node-stage-secret-namespace'', ''other''),
      (''csi.storage.k8s.io/node-stage-secret-namespace'', ''${pvc.namespace}''),
      (''csi.storage.k8s.io/node-stage-secret-name'', ''${pv.name}-stage''),
      (''node-stage-secret-name'', ''old'')] NodeStageSecret
     = Inr (''${pvc.namespace}'', ''${pv.name}-stage'')
   \<and> getSecretTemplate
     [(''node-stage-secret-namespace'', ''other''),
      (''csi.storage.k8s.io/node-stage-secret-name'', ''${pv.name}-stage'')] NodeStageSecret
     = Inr (''other'', ''${pv.name}-stage'')"
  using canonical_key_precedence[of
     "[(''node-stage-secret-namespace'', ''other''),
      (''csi.storage.k8s.io/node-stage-secret-namespace'', ''${pvc.namespace}''),
      (''csi.storage.k8s.io/node-stage-secret-name'', ''${pv.name}-stage''),
      (''node-stage-secret-name'', ''old'')]" NodeStageSecret
     "''${pvc.namespace}''" "''${pv.name}-stage''"]
   canonical_key_precedence[of
     "[(''node-stage-secret-namespace'', ''other''),
      (''csi.storage.k8s.io/node-stage-secret-name'', ''${pv.name}-stage'')]"
     NodeStageSecret _ "''${pv.name}-stage''" _ "''other''"]
  by simp

subsection \<open>The parameter sets of \<open>resolveTemplate\<close>\<close>

lemma annotationToken_not_base:
  "annotationToken k \<noteq> tokenPVNameKey" "annotationToken k \<noteq> tokenPVCNamespaceKey"
  "annotationToken k \<noteq> tokenPVCNameKey"
  by (simp_all add: annotationToken_def tokenPVNameKey_def tokenPVCNamespaceKey_def
      tokenPVCNameKey_def)

lemma annotationToken_inj: "annotationToken k = annotationToken k' \<longleftrightarrow> k = k'"
  by (simp add: annotationToken_def)

lemma fold_update_keys:
  "fst ` set (fold (\<lambda>(k, v) ps. AList.update (f k) v ps) anns ps)
     = fst ` set ps \<union> f ` fst ` set anns"
proof (induction anns arbitrary: ps)
  case Nil
  show ?case by simp
next
  case (Cons a anns)
  obtain k v where a: "a = (k, v)" by (cases a)
  have "fst ` set (AList.update (f k) v ps) = insert (f k) (fst ` set ps)"
    using update_keys[of "f k" v ps] by (auto simp: dom_map_of_conv_image_fst[symmetric] update_conv')
  with Cons[of "AList.update (f k) v ps"] a show ?case by auto
qed

lemma fold_update_other:
  "k' \<notin> f ` fst ` set anns \<Longrightarrow>
     map_of (fold (\<lambda>(k, v) ps. AList.update (f k) v ps) anns ps) k' = map_of ps k'"
proof (induction anns arbitrary: ps)
  case Nil
  show ?case by simp
next
  case (Cons a anns)
  obtain k v where a: "a = (k, v)" by (cases a)
  from Cons.prems a have "k' \<noteq> f k" and "k' \<notin> f ` fst ` set anns" by auto
  with Cons.IH[of "AList.update (f k) v ps"] a show ?case
    by (simp add: update_conv')
qed

lemma fold_update_entry:
  "inj f \<Longrightarrow> distinct (map fst anns) \<Longrightarrow> (k, v) \<in> set anns \<Longrightarrow>
     map_of (fold (\<lambda>(k, v) ps. AList.update (f k) v ps) anns ps) (f k) = Some v"
proof (induction anns arbitrary: ps)
  case Nil
  then show ?case by simp
next
  case (Cons a anns)
  obtain k0 v0 where a: "a = (k0, v0)" by (cases a)
  show ?case
  proof (cases "(k, v) \<in> set anns")
    case True
    with Cons a show ?thesis by simp
  next
    case False
    with Cons.prems a have kv: "k0 = k" "v0 = v" by auto
    with Cons.prems a have "k \<notin> fst ` set anns" by auto
    with \<open>inj f\<close> have "f k \<notin> f ` fst ` set anns" by (auto dest: injD)
    from fold_update_other[OF this, of "AList.update (f k) v ps"] a kv show ?thesis
      by (simp add: update_conv')
  qed
qed

lemma resolveParams_keys_ns:
  "fst ` set (resolveParams pvName pvc False) = {tokenPVNameKey, tokenPVCNamespaceKey}"
  by (simp add: resolveParams_def)

lemma resolveParams_keys_name:
  "fst ` set (resolveParams pvName pvc True)
     = {tokenPVNameKey, tokenPVCNamespaceKey, tokenPVCNameKey}
       \<union> annotationToken ` fst ` set (pvc_Annotations pvc)"
  by (auto simp: resolveParams_def fold_update_keys tokenPVNameKey_def
      tokenPVCNamespaceKey_def tokenPVCNameKey_def)

lemma resolveParams_name_other:
  assumes "\<And>k. annotationToken k \<noteq> b"
  shows "map_of (resolveParams pvName pvc True) b
           = map_of (AList.update tokenPVCNameKey (pvc_Name pvc)
               [(tokenPVNameKey, pvName), (tokenPVCNamespaceKey, pvc_Namespace pvc)]) b"
proof -
  from assms have "b \<notin> annotationToken ` fst ` set (pvc_Annotations pvc)"
    by auto
  from fold_update_other[OF this] show ?thesis
    by (simp add: resolveParams_def)
qed

lemma resolveParams_base:
  "map_of (resolveParams pvName pvc isName) tokenPVNameKey = Some pvName"
  "map_of (resolveParams pvName pvc isName) tokenPVCNamespaceKey = Some (pvc_Namespace pvc)"
  "map_of (resolveParams pvName pvc True) tokenPVCNameKey = Some (pvc_Name pvc)"
proof -
  have ns: "map_of (resolveParams pvName pvc False) tokenPVNameKey = Some pvName"
    "map_of (resolveParams pvName pvc False) tokenPVCNamespaceKey = Some (pvc_Namespace pvc)"
    by (simp_all add: resolveParams_def tokenPVNameKey_def tokenPVCNamespaceKey_def)
  have nm: "map_of (resolveParams pvName pvc True) tokenPVNameKey = Some pvName"
    "map_of (resolveParams pvName pvc True) tokenPVCNamespaceKey = Some (pvc_Namespace pvc)"
    "map_of (resolveParams pvName pvc True) tokenPVCNameKey = Some (pvc_Name pvc)"
    using resolveParams_name_other[OF annotationToken_not_base(1), of pvName pvc]
      resolveParams_name_other[OF annotationToken_not_base(2), of pvName pvc]
      resolveParams_name_other[OF annotationToken_not_base(3), of pvName pvc]
    by (simp_all add: update_conv' tokenPVNameKey_def tokenPVCNamespaceKey_def
        tokenPVCNameKey_def)
  from ns nm show "map_of (resolveParams pvName pvc isName) tokenPVNameKey = Some pvName"
    by (cases isName) simp_all
  from ns nm show
    "map_of (resolveParams pvName pvc isName) tokenPVCNamespaceKey = Some (pvc_Namespace pvc)"
    by (cases isName) simp_all
  from nm show "map_of (resolveParams pvName pvc True) tokenPVCNameKey = Some (pvc_Name pvc)"
    by simp
qed

lemma resolveParams_annotation:
  "distinct (map fst (pvc_Annotations pvc)) \<Longrightarrow> (k, v) \<in> set (pvc_Annotations pvc) \<Longrightarrow>
     map_of (resolveParams pvName pvc True) (annotationToken k) = Some v"
  by (simp add: resolveParams_def fold_update_entry inj_def annotationToken_inj)

lemma resolveParams_absent_annotation:
  assumes "map_of (pvc_Annotations pvc) k = None"
  shows "map_of (resolveParams pvName pvc True) (annotationToken k) = None"
proof -
  from assms have "k \<notin> fst ` set (pvc_Annotations pvc)"
    by (simp add: map_of_eq_None_iff)
  then have "annotationToken k \<notin> annotationToken ` fst ` set (pvc_Annotations pvc)"
    by (force simp: annotationToken_inj)
  from fold_update_other[OF this] annotationToken_not_base[of k] show ?thesis
    by (simp add: resolveParams_def)
qed

lemma getShellName_annotationToken:
  assumes "CHR ''}'' \<notin> set k"
  shows "getShellName (CHR ''{'' # annotationToken k @ CHR ''}'' # rest)
           = (annotationToken k, length (annotationToken k) + 2)"
proof -
  have tw: "takeWhile (\<lambda>x. x \<noteq> CHR ''}'') (k @ ys) = k @ takeWhile (\<lambda>x. x \<noteq> CHR ''}'') ys" for ys
    using assms by (intro takeWhile_append2) auto
  show ?thesis
    by (simp add: getShellName.simps annotationToken_def isShellSpecialVar_def tw)
qed

lemma placeholders_annotationToken:
  assumes "CHR ''}'' \<notin> set k"
  shows "placeholders (''${'' @ annotationToken k @ ''}'') = [annotationToken k]"
proof -
  have n: "annotationToken k \<noteq> []" by (simp add: annotationToken_def)
  have "placeholders (CHR ''$'' # CHR ''{'' # annotationToken k @ [CHR ''}''])
          = [annotationToken k]"
    using n by (simp add: placeholders.simps(3) getShellName_annotationToken[OF assms])
  then show ?thesis by simp
qed

text \<open>
  Claim C6. A namespace template is resolved against the two tokens \<open>pv.name\<close> and
  \<open>pvc.namespace\<close> and no other; a name template against these, \<open>pvc.name\<close> and one
  token \<open>pvc.annotations['key']\<close> for each annotation of the claim, with the
  annotation's value. A name template with a placeholder for an annotation that the
  claim lacks fails with the missing-token error, which reports that token as it is
  spelled.
\<close>

theorem secret_token_namespaces:
  "fst ` set (resolveParams pvName pvc False) = {tokenPVNameKey, tokenPVCNamespaceKey}
   \<and> fst ` set (resolveParams pvName pvc True)
       = {tokenPVNameKey, tokenPVCNamespaceKey, tokenPVCNameKey}
         \<union> annotationToken ` fst ` set (pvc_Annotations pvc)
   \<and> map_of (resolveParams pvName pvc isName) tokenPVNameKey = Some pvName
   \<and> map_of (resolveParams pvName pvc isName) tokenPVCNamespaceKey = Some (pvc_Namespace pvc)
   \<and> map_of (resolveParams pvName pvc True) tokenPVCNameKey = Some (pvc_Name pvc)
   \<and> (distinct (map fst (pvc_Annotations pvc)) \<and> (k, v) \<in> set (pvc_Annotations pvc)
        \<longrightarrow> map_of (resolveParams pvName pvc True) (annotationToken k) = Some v)
   \<and> (map_of (pvc_Annotations pvc) k = None \<and> annotationToken k \<in> set (placeholders template)
        \<longrightarrow> (\<exists>ms. resolveTemplate template pvName pvc True = Inl (InvalidTokens ms)
                  \<and> annotationToken k \<in> set ms))
   \<and> (map_of (pvc_Annotations pvc) k = None \<and> CHR ''}'' \<notin> set k
        \<longrightarrow> resolveTemplate (''${'' @ annotationToken k @ ''}'') pvName pvc True
              = Inl (InvalidTokens [annotationToken k]))"
proof -
  have general: "\<exists>ms. resolveTemplate template pvName pvc True = Inl (InvalidTokens ms)
                  \<and> annotationToken k \<in> set ms"
    if "map_of (pvc_Annotations pvc) k = None" "annotationToken k \<in> set (placeholders template)"
  proof -
    from that have "annotationToken k \<in> uncovered template (resolveParams pvName pvc True)"
      by (simp add: uncovered_def resolveParams_absent_annotation)
    then show ?thesis
      using finite_uncovered[of template "resolveParams pvName pvc True"]
      by (auto simp: resolveTemplate_eq Let_def)
  qed
  have exact: "resolveTemplate (''${'' @ annotationToken k @ ''}'') pvName pvc True
              = Inl (InvalidTokens [annotationToken k])"
    if "map_of (pvc_Annotations pvc) k = None" "CHR ''}'' \<notin> set k"
  proof -
    from that have "uncovered (''${'' @ annotationToken k @ ''}'') (resolveParams pvName pvc True)
                      = {annotationToken k}"
      by (auto simp add: uncovered_def placeholders_annotationToken
          resolveParams_absent_annotation simp del: append.simps)
    then show ?thesis
      by (simp add: resolveTemplate_eq Let_def del: append.simps)
  qed
  from general exact show ?thesis
    by (simp add: resolveParams_keys_ns resolveParams_keys_name resolveParams_base
        resolveParams_annotation del: append.simps)
qed

theorem secret_token_namespaces_witness:
  "distinct (map fst (pvc_Annotations example_pvc))
   \<and> (''team'', ''platform'') \<in> set (pvc_Annotations example_pvc)
   \<and> map_of (resolveParams ''pv-foo'' example_pvc True) (annotationToken ''team'')
       = Some ''platform''
   \<and> map_of (pvc_Annotations example_pvc) ''owner'' = None \<and> CHR ''}'' \<notin> set ''owner''
   \<and> resolveTemplate (''${'' @ annotationToken ''owner'' @ ''}'') ''pv-foo'' example_pvc True
       = Inl (InvalidTokens [annotationToken ''owner''])
   \<and> annotationToken ''owner''
       \<in> set (placeholders (''s-${pv.name}-${'' @ annotationToken ''owner'' @ ''}''))
   \<and> (\<exists>ms. resolveTemplate (''s-${pv.name}-${'' @ annotationToken ''owner'' @ ''}'')
               ''pv-foo'' example_pvc True = Inl (InvalidTokens ms)
             \<and> annotationToken ''owner'' \<in> set ms)
   \<and> resolveTemplate (''${'' @ annotationToken ''team'' @ ''}'') ''pv-foo'' example_pvc True
       = Inr ''platform''
   \<and> resolveTemplate ''${pvc.name}'' ''pv-foo'' example_pvc False
       = Inl (InvalidTokens [''pvc.name''])"
proof -
  have h1: "distinct (map fst (pvc_Annotations example_pvc))
            \<and> (''team'', ''platform'') \<in> set (pvc_Annotations example_pvc)"
    by (simp add: example_pvc_def)
  have h2: "map_of (pvc_Annotations example_pvc) ''owner'' = None"
    and h3: "CHR ''}'' \<notin> set ''owner''"
    by (simp_all add: example_pvc_def)
  have h4: "annotationToken ''owner''
              \<in> set (placeholders (''s-${pv.name}-${'' @ annotationToken ''owner'' @ ''}''))"
    by code_simp
  have e1: "resolveTemplate (''${'' @ annotationToken ''team'' @ ''}'') ''pv-foo''
              example_pvc True = Inr ''platform''"
    by code_simp
  have e2: "resolveTemplate ''${pvc.name}'' ''pv-foo'' example_pvc False
              = Inl (InvalidTokens [''pvc.name''])"
    by code_simp
  note T1 = secret_token_namespaces[of "''pv-foo''" example_pvc True "''team''" "''platform''"]
  note T2 = secret_token_namespaces[of "''pv-foo''" example_pvc True "''owner''" _
      "''s-${pv.name}-${'' @ annotationToken ''owner'' @ ''}''"]
  from T1 h1 have c1: "map_of (resolveParams ''pv-foo'' example_pvc True)
                        (annotationToken ''team'') = Some ''platform''"
    by blast
  from T2 h2 h3 have c2: "resolveTemplate (''${'' @ annotationToken ''owner'' @ ''}'')
                            ''pv-foo'' example_pvc True
                          = Inl (InvalidTokens [annotationToken ''owner''])"
    by blast
  from T2 h2 h4 have c3: "\<exists>ms. resolveTemplate
        (''s-${pv.name}-${'' @ annotationToken ''owner'' @ ''}'') ''pv-foo'' example_pvc True
          = Inl (InvalidTokens ms) \<and> annotationToken ''owner'' \<in> set ms"
    by blast
  from h1 h2 h3 h4 c1 c2 c3 e1 e2 show ?thesis
    by blast
qed

subsection \<open>Validation of the resolved names\<close>

lemma not_lower_of_upper: "isUpper c \<or> c = CHR ''_'' \<Longrightarrow> \<not> (isLowerAlnum c \<or> c = CHR ''-'')"
  by (auto simp: isUpper_def isLowerAlnum_def less_eq_char_def)

lemma hyphen_not_alnum: "\<not> isLowerAlnum CHR ''-''"
  by (simp add: isLowerAlnum_def)

lemma splitOn_nonempty: "splitOn sep s \<noteq> []"
  by (induction s) (auto split: list.splits)

lemma splitOn_member:
  "c \<in> set s \<Longrightarrow> c \<noteq> sep \<Longrightarrow> \<exists>l \<in> set (splitOn sep s). c \<in> set l"
  by (induction s) (auto split: list.splits)

lemma splitOn_hd:
  "c \<noteq> sep \<Longrightarrow> hd (splitOn sep (c # cs)) \<noteq> [] \<and> hd (hd (splitOn sep (c # cs))) = c"
  by (auto split: list.splits)

lemma splitOn_last:
  "s \<noteq> [] \<Longrightarrow> last s \<noteq> sep \<Longrightarrow>
     last (splitOn sep s) \<noteq> [] \<and> last (last (splitOn sep s)) = last s"
proof (induction s)
  case Nil
  then show ?case by simp
next
  case (Cons c cs)
  show ?case
  proof (cases "cs = []")
    case True
    with Cons.prems show ?thesis by simp
  next
    case False
    with Cons have ih: "last (splitOn sep cs) \<noteq> [] \<and> last (last (splitOn sep cs)) = last cs"
      by simp
    obtain l ls where sp: "splitOn sep cs = l # ls"
      using splitOn_nonempty[of sep cs] by (cases "splitOn sep cs") auto
    from ih sp False show ?thesis
      by (cases "ls = []") auto
  qed
qed

lemma regexp_rejects:
  assumes "(\<exists>c \<in> set r. isUpper c \<or> c = CHR ''_'')
           \<or> (r \<noteq> [] \<and> (hd r = CHR ''-'' \<or> last r = CHR ''-''))"
  shows "\<not> dns1123SubdomainRegexp r"
proof
  assume m: "dns1123SubdomainRegexp r"
  then have all: "\<And>l. l \<in> set (splitOn CHR ''.'' r) \<Longrightarrow> dns1123Label l"
    by (simp add: dns1123SubdomainRegexp_def list_all_iff)
  from assms consider
      (bad) c where "c \<in> set r" "isUpper c \<or> c = CHR ''_''"
    | (lead) "r \<noteq> []" "hd r = CHR ''-''"
    | (trail) "r \<noteq> []" "last r = CHR ''-''"
    by blast
  then show False
  proof cases
    case bad
    from bad(2) have "c \<noteq> CHR ''.''"
      by (auto simp: isUpper_def less_eq_char_def)
    from splitOn_member[OF bad(1) this] obtain l
      where "l \<in> set (splitOn CHR ''.'' r)" "c \<in> set l" by blast
    with all[of l] not_lower_of_upper[OF bad(2)] show False
      by (auto simp: dns1123Label_def list_all_iff)
  next
    case lead
    then obtain cs where r: "r = CHR ''-'' # cs" by (cases r) auto
    have "hd (splitOn CHR ''.'' r) \<in> set (splitOn CHR ''.'' r)"
      using splitOn_nonempty by simp
    from all[OF this] splitOn_hd[of "CHR ''-''" "CHR ''.''" cs] r hyphen_not_alnum
    show False by (simp add: dns1123Label_def)
  next
    case trail
    have "last (splitOn CHR ''.'' r) \<in> set (splitOn CHR ''.'' r)"
      using splitOn_nonempty by simp
    from all[OF this] splitOn_last[of r "CHR ''.''"] trail hyphen_not_alnum
    show False by (simp add: dns1123Label_def)
  qed
qed


lemma resolveTemplate_Inr_valid:
  "resolveTemplate t pvName pvc b = Inr r \<Longrightarrow> IsDNS1123Subdomain r = []"
  by (simp add: resolveTemplate_eq Let_def split: if_splits)

lemma IsDNS1123Subdomain_rejects:
  "(\<exists>c \<in> set r. isUpper c \<or> c = CHR ''_'')
     \<or> (r \<noteq> [] \<and> (hd r = CHR ''-'' \<or> last r = CHR ''-''))
   \<Longrightarrow> IsDNS1123Subdomain r \<noteq> []"
  using regexp_rejects[of r] by (simp add: IsDNS1123Subdomain_def)

lemma GetSecret_Some_valid:
  assumes "GetSecret scParams sType pvName pvc = Inr (Some ref)"
  shows "IsDNS1123Subdomain (sr_Namespace ref) = [] \<and> IsDNS1123Subdomain (sr_Name ref) = []"
proof -
  from assms obtain nsTempl nameTempl ns name where
    "resolveTemplate nsTempl pvName pvc False = Inr ns"
    "resolveTemplate nameTempl pvName pvc True = Inr name"
    "ref = \<lparr>sr_Namespace = ns, sr_Name = name\<rparr>"
    by (auto simp: GetSecret_def split: sum.splits if_splits prod.splits)
  then show ?thesis
    by (simp add: resolveTemplate_Inr_valid)
qed

text \<open>
  Claim C7. The resolved namespace and the resolved name are each validated as a
  DNS-1123 subdomain: a resolved value with an upper case letter or an underscore, or
  with a hyphen at its beginning or end, is rejected with the invalid-name error, which
  carries the template and the resolved value; a value that passes the validation is
  returned. Every secret reference that \<open>GetSecret\<close> returns has passed it twice.
\<close>

theorem resolved_names_validated:
  "(uncovered template (resolveParams pvName pvc isName) = {}
      \<and> fst (Expand template (lookupToken (resolveParams pvName pvc isName)) sets_NewString)
          = resolved
    \<longrightarrow> (IsDNS1123Subdomain resolved = []
           \<longrightarrow> resolveTemplate template pvName pvc isName = Inr resolved)
        \<and> (IsDNS1123Subdomain resolved \<noteq> []
           \<longrightarrow> resolveTemplate template pvName pvc isName
                 = Inl (NotValidDNSName template resolved))
        \<and> ((\<exists>c \<in> set resolved. isUpper c \<or> c = CHR ''_'')
              \<or> (resolved \<noteq> [] \<and> (hd resolved = CHR ''-'' \<or> last resolved = CHR ''-''))
           \<longrightarrow> resolveTemplate template pvName pvc isName
                 = Inl (NotValidDNSName template resolved)))
   \<and> (resolveTemplate template pvName pvc isName = Inr r \<longrightarrow> IsDNS1123Subdomain r = [])
   \<and> (GetSecret scParams sType pvName pvc = Inr (Some ref)
        \<longrightarrow> IsDNS1123Subdomain (sr_Namespace ref) = []
            \<and> IsDNS1123Subdomain (sr_Name ref) = [])"
proof (intro conjI impI)
  assume a: "uncovered template (resolveParams pvName pvc isName) = {}
      \<and> fst (Expand template (lookupToken (resolveParams pvName pvc isName)) sets_NewString)
          = resolved"
  then have eq: "resolveTemplate template pvName pvc isName =
      (if IsDNS1123Subdomain resolved \<noteq> [] then Inl (NotValidDNSName template resolved)
       else Inr resolved)"
    by (simp add: resolveTemplate_eq Let_def)
  show "resolveTemplate template pvName pvc isName = Inr resolved"
    if "IsDNS1123Subdomain resolved = []"
    using that eq by simp
  show "resolveTemplate template pvName pvc isName = Inl (NotValidDNSName template resolved)"
    if "IsDNS1123Subdomain resolved \<noteq> []"
    using that eq by simp
  show "resolveTemplate template pvName pvc isName = Inl (NotValidDNSName template resolved)"
    if "(\<exists>c \<in> set resolved. isUpper c \<or> c = CHR ''_'')
          \<or> (resolved \<noteq> [] \<and> (hd resolved = CHR ''-'' \<or> last resolved = CHR ''-''))"
    using IsDNS1123Subdomain_rejects[OF that] eq by simp
next
  assume "resolveTemplate template pvName pvc isName = Inr r"
  then show "IsDNS1123Subdomain r = []"
    by (rule resolveTemplate_Inr_valid)
next
  assume g: "GetSecret scParams sType pvName pvc = Inr (Some ref)"
  from GetSecret_Some_valid[OF g] show "IsDNS1123Subdomain (sr_Namespace ref) = []"
    and "IsDNS1123Subdomain (sr_Name ref) = []"
    by simp_all
qed

theorem resolved_names_validated_witness:
  "uncovered ''${pv.name}.01'' (resolveParams ''my-secret'' example_pvc True) = {}
   \<and> fst (Expand ''${pv.name}.01'' (lookupToken (resolveParams ''my-secret'' example_pvc True))
          sets_NewString) = ''my-secret.01''
   \<and> IsDNS1123Subdomain ''my-secret.01'' = []
   \<and> resolveTemplate ''${pv.name}.01'' ''my-secret'' example_pvc True = Inr ''my-secret.01''
   \<and> uncovered ''My_${pv.name}'' (resolveParams ''Secret'' example_pvc False) = {}
   \<and> fst (Expand ''My_${pv.name}'' (lookupToken (resolveParams ''Secret'' example_pvc False))
          sets_NewString) = ''My_Secret''
   \<and> (\<exists>c \<in> set ''My_Secret''. isUpper c \<or> c = CHR ''_'')
   \<and> resolveTemplate ''My_${pv.name}'' ''Secret'' example_pvc False
       = Inl (NotValidDNSName ''My_${pv.name}'' ''My_Secret'')"
proof -
  have a1: "uncovered ''${pv.name}.01'' (resolveParams ''my-secret'' example_pvc True) = {}"
    by code_simp
  have a2: "fst (Expand ''${pv.name}.01''
               (lookupToken (resolveParams ''my-secret'' example_pvc True)) sets_NewString)
             = ''my-secret.01''"
    by code_simp
  have a3: "IsDNS1123Subdomain ''my-secret.01'' = []"
    by code_simp
  have b1: "uncovered ''My_${pv.name}'' (resolveParams ''Secret'' example_pvc False) = {}"
    by code_simp
  have b2: "fst (Expand ''My_${pv.name}''
               (lookupToken (resolveParams ''Secret'' example_pvc False)) sets_NewString)
             = ''My_Secret''"
    by code_simp
  have b3: "\<exists>c \<in> set ''My_Secret''. isUpper c \<or> c = CHR ''_''"
    by code_simp
  note T1 = resolved_names_validated[of "''${pv.name}.01''" "''my-secret''" example_pvc True
      "''my-secret.01''", THEN conjunct1, THEN mp, OF conjI[OF a1 a2]]
  note T2 = resolved_names_validated[of "''My_${pv.name}''" "''Secret''" example_pvc False
      "''My_Secret''", THEN conjunct1, THEN mp, OF conjI[OF b1 b2]]
  from T1[THEN conjunct1, THEN mp, OF a3]
  have c1: "resolveTemplate ''${pv.name}.01'' ''my-secret'' example_pvc True
              = Inr ''my-secret.01''" .
  from T2[THEN conjunct2, THEN conjunct2, THEN mp, OF disjI1[OF b3]]
  have c2: "resolveTemplate ''My_${pv.name}'' ''Secret'' example_pvc False
              = Inl (NotValidDNSName ''My_${pv.name}'' ''My_Secret'')" .
  from a1 a2 a3 b1 b2 b3 c1 c2 show ?thesis
    by (intro conjI)
qed


section \<open>The orchestrator\<close>

lemma setSecret_fields:
  "v_cs (fst (setSecret v)) = v_cs v"
  "v_namespace (fst (setSecret v)) = v_namespace v"
  "v_templatePath (fst (setSecret v)) = v_templatePath v"
  "v_importParams (fst (setSecret v)) = v_importParams v"
  "v_pvc (fst (setSecret v)) = v_pvc v"
  "v_sc (fst (setSecret v)) = v_sc v"
  "v_pvName (fst (setSecret v)) = v_pvName v"
  "v_volumeHandle (fst (setSecret v)) = v_volumeHandle v"
  by (simp_all add: setSecret_def Let_def split: sum.splits)

lemma genVolumeHandle_fields:
  "v_templatePath v = v_templatePath w \<Longrightarrow> v_sc v = v_sc w \<Longrightarrow>
   v_importParams v = v_importParams w \<Longrightarrow> genVolumeHandle x v = genVolumeHandle x w"
  by (simp add: genVolumeHandle_def cong: sum.case_cong)

lemma genFsType_fields:
  "v_volumeMode v = v_volumeMode w \<Longrightarrow> v_sc v = v_sc w \<Longrightarrow> genFsType v = genFsType w"
  by (simp add: genFsType_def)

lemma NewVolumeImporter_Inr:
  assumes "NewVolumeImporter x kubeconfig ns claimFile importParams templatePath = Inr v"
  shows "v_namespace v = ns" and "pvc_Namespace (v_pvc v) = ns"
    and "v_templatePath v = templatePath" and "v_importParams v = importParams"
    and "v_volumeMode v = pvc_VolumeMode (v_pvc v)"
    and "v_fsType v = genFsType v"
    and "genVolumeHandle x v = Inr (v_volumeHandle v)"
    and "v_pvName v = pvPrefix @ pvc_Name (v_pvc v)"
    and "pvc_StorageClassName (v_pvc v) \<noteq> None"
proof -
  define v0 where "v0 = (\<lambda>cs pvc0 sc.
       \<lparr>v_cs = cs, v_namespace = ns, v_templatePath = templatePath,
         v_importParams = importParams, v_pvc = pvc0\<lparr>pvc_Namespace := ns\<rparr>, v_sc = sc,
         v_pvName = pvPrefix @ pvc_Name pvc0, v_volumeHandle = [],
         v_capacity = (case map_of (pvc_Requests pvc0) ResourceStorage of
                         Some q \<Rightarrow> q | None \<Rightarrow> 0),
         v_attributes = [],
         v_readOnly = False, v_volumeMode = None, v_fsType = [],
         v_controllerPublishSecret = None, v_nodeStageSecret = None,
         v_nodePublishSecret = None, v_controllerExpandSecret = None\<rparr>)"
  from assms obtain cs pvc0 scName sc volumeHandle where
    scn: "pvc_StorageClassName pvc0 = Some scName"
    and gv: "genVolumeHandle x (v0 cs pvc0 sc) = Inr volumeHandle"
    and v: "v = (let v = (v0 cs pvc0 sc)\<lparr>v_volumeHandle := volumeHandle\<rparr>;
          v = fst (setSecret v);
          v = v\<lparr>v_readOnly := False\<rparr>;
          v = v\<lparr>v_volumeMode := pvc_VolumeMode (v_pvc v)\<rparr>;
          v = v\<lparr>v_fsType := genFsType v\<rparr>;
          v = v\<lparr>v_attributes := genAttributes v\<rparr>
      in v)"
    by (auto simp: NewVolumeImporter_def Let_def v0_def split: sum.splits option.splits)
  show "v_namespace v = ns" "pvc_Namespace (v_pvc v) = ns"
    "v_templatePath v = templatePath" "v_importParams v = importParams"
    "v_volumeMode v = pvc_VolumeMode (v_pvc v)"
    "v_pvName v = pvPrefix @ pvc_Name (v_pvc v)"
    "pvc_StorageClassName (v_pvc v) \<noteq> None"
    using scn by (simp_all add: v Let_def setSecret_fields v0_def)
  show "v_fsType v = genFsType v"
    by (simp add: v Let_def genFsType_def)
  have "genVolumeHandle x v = genVolumeHandle x (v0 cs pvc0 sc)"
    by (rule genVolumeHandle_fields) (simp_all add: v Let_def setSecret_fields)
  with gv show "genVolumeHandle x v = Inr (v_volumeHandle v)"
    by (simp add: v Let_def setSecret_fields)
qed

lemma example_run:
  "NewVolumeImporter (example_ext example_template example_params)
     ''kubeconfig'' ''ns1'' ''pvc.yaml'' [(''size'', ''10Gi'')] ''/etc/importvolume''
   = Inr example_imported"
  by code_simp

lemma HasSuffix_single: "HasSuffix t [c] \<longleftrightarrow> t \<noteq> [] \<and> last t = c"
  by (cases t rule: rev_cases) (simp_all add: HasSuffix_def)

lemma TrimSuffix_newline:
  "TrimSuffix (t @ [c]) [c] = t"
  "t = [] \<or> last t \<noteq> c \<Longrightarrow> TrimSuffix t [c] = t"
  by (auto simp: TrimSuffix_def HasSuffix_single)

lemma main_calls:
  "fst (main x kubeconfig ns claimFile importParams templatePath) \<noteq> [] \<Longrightarrow>
     \<exists>w. NewVolumeImporter x kubeconfig ns claimFile importParams templatePath = Inr w"
  by (simp add: main_def split: sum.splits)

text \<open>
  Claim C8. \<open>genVolumeHandle\<close> returns the error of the template store when the driver
  has no template; otherwise it removes one trailing newline from the template and
  expands it against the import parameters of the caller alone: the claim, the volume
  name and the target namespace have no part in the result. When every placeholder is
  covered it returns the expanded string as it is, valid as a name or not. A run
  yields an importer, and issues a create call, only when \<open>genVolumeHandle\<close> succeeded.
\<close>

theorem genVolumeHandle_contract:
  "(ReadFile x (Join x (v_templatePath v) (sc_Provisioner (v_sc v))) = Inl err
      \<longrightarrow> genVolumeHandle x v = Inl err)
   \<and> (ReadFile x (Join x (v_templatePath v) (sc_Provisioner (v_sc v))) = Inr raw
      \<longrightarrow> (uncovered (TrimSuffix raw [CHR 0x0A]) (v_importParams v) = {}
             \<longrightarrow> genVolumeHandle x v
                   = Inr (fst (Expand (TrimSuffix raw [CHR 0x0A])
                                (lookupToken (v_importParams v)) sets_NewString)))
          \<and> (uncovered (TrimSuffix raw [CHR 0x0A]) (v_importParams v) \<noteq> {}
             \<longrightarrow> genVolumeHandle x v
                   = Inl (InvalidTokens (sorted_list_of_set
                       (uncovered (TrimSuffix raw [CHR 0x0A]) (v_importParams v))))))
   \<and> TrimSuffix (t @ [CHR 0x0A]) [CHR 0x0A] = t
   \<and> (t = [] \<or> last t \<noteq> CHR 0x0A \<longrightarrow> TrimSuffix t [CHR 0x0A] = t)
   \<and> (NewVolumeImporter x kubeconfig ns claimFile importParams templatePath = Inr w
      \<longrightarrow> v_templatePath w = templatePath \<and> v_importParams w = importParams
          \<and> genVolumeHandle x w = Inr (v_volumeHandle w))
   \<and> (fst (main x kubeconfig ns claimFile importParams templatePath) \<noteq> []
      \<longrightarrow> (\<exists>w. NewVolumeImporter x kubeconfig ns claimFile importParams templatePath = Inr w
               \<and> genVolumeHandle x w = Inr (v_volumeHandle w)))
   \<and> genVolumeHandle x (v\<lparr>v_pvc := pvc, v_pvName := pvName, v_namespace := target\<rparr>)
       = genVolumeHandle x v"
proof -
  have rd: "(ReadFile x (Join x (v_templatePath v) (sc_Provisioner (v_sc v))) = Inl err
      \<longrightarrow> genVolumeHandle x v = Inl err)
   \<and> (ReadFile x (Join x (v_templatePath v) (sc_Provisioner (v_sc v))) = Inr raw
      \<longrightarrow> (uncovered (TrimSuffix raw [CHR 0x0A]) (v_importParams v) = {}
             \<longrightarrow> genVolumeHandle x v
                   = Inr (fst (Expand (TrimSuffix raw [CHR 0x0A])
                                (lookupToken (v_importParams v)) sets_NewString)))
          \<and> (uncovered (TrimSuffix raw [CHR 0x0A]) (v_importParams v) \<noteq> {}
             \<longrightarrow> genVolumeHandle x v
                   = Inl (InvalidTokens (sorted_list_of_set
                       (uncovered (TrimSuffix raw [CHR 0x0A]) (v_importParams v))))))"
    by (simp add: genVolumeHandle_eq Let_def)
  have trim: "TrimSuffix (t @ [CHR 0x0A]) [CHR 0x0A] = t
   \<and> (t = [] \<or> last t \<noteq> CHR 0x0A \<longrightarrow> TrimSuffix t [CHR 0x0A] = t)"
    using TrimSuffix_newline[of t "CHR 0x0A"] by blast
  have new: "NewVolumeImporter x kubeconfig ns claimFile importParams templatePath = Inr w
      \<longrightarrow> v_templatePath w = templatePath \<and> v_importParams w = importParams
          \<and> genVolumeHandle x w = Inr (v_volumeHandle w)"
    by (simp add: NewVolumeImporter_Inr)
  have run: "fst (main x kubeconfig ns claimFile importParams templatePath) \<noteq> []
      \<longrightarrow> (\<exists>w. NewVolumeImporter x kubeconfig ns claimFile importParams templatePath = Inr w
               \<and> genVolumeHandle x w = Inr (v_volumeHandle w))"
  proof
    assume "fst (main x kubeconfig ns claimFile importParams templatePath) \<noteq> []"
    from main_calls[OF this] obtain u
      where u: "NewVolumeImporter x kubeconfig ns claimFile importParams templatePath = Inr u"
      by blast
    with NewVolumeImporter_Inr(7)[OF u]
    show "\<exists>w. NewVolumeImporter x kubeconfig ns claimFile importParams templatePath = Inr w
               \<and> genVolumeHandle x w = Inr (v_volumeHandle w)"
      by blast
  qed
  have indep: "genVolumeHandle x (v\<lparr>v_pvc := pvc, v_pvName := pvName, v_namespace := target\<rparr>)
       = genVolumeHandle x v"
    by (rule genVolumeHandle_fields) simp_all
  from rd trim new run indep show ?thesis
    by (intro conjI) (erule conjunct1 conjunct2 | assumption)+
qed

theorem genVolumeHandle_contract_witness:
  "ReadFile (example_ext (''Vol_${size}'' @ [CHR 0x0A]) [])
      (Join (example_ext (''Vol_${size}'' @ [CHR 0x0A]) [])
         (v_templatePath (example_importer [(''size'', ''10Gi'')] []))
         (sc_Provisioner (v_sc (example_importer [(''size'', ''10Gi'')] []))))
     = Inr (''Vol_${size}'' @ [CHR 0x0A])
   \<and> uncovered (TrimSuffix (''Vol_${size}'' @ [CHR 0x0A]) [CHR 0x0A])
        (v_importParams (example_importer [(''size'', ''10Gi'')] [])) = {}
   \<and> genVolumeHandle (example_ext (''Vol_${size}'' @ [CHR 0x0A]) [])
        (example_importer [(''size'', ''10Gi'')] []) = Inr ''Vol_10Gi''
   \<and> IsDNS1123Subdomain ''Vol_10Gi'' \<noteq> []
   \<and> ReadFile (example_ext (''Vol_${size}'' @ [CHR 0x0A]) [])
      (Join (example_ext (''Vol_${size}'' @ [CHR 0x0A]) [])
         (v_templatePath ((example_importer [] [])\<lparr>v_templatePath := ''/none''\<rparr>))
         (sc_Provisioner (v_sc ((example_importer [] [])\<lparr>v_templatePath := ''/none''\<rparr>))))
     = Inl (ExternalError ''no such file'')
   \<and> genVolumeHandle (example_ext (''Vol_${size}'' @ [CHR 0x0A]) [])
        ((example_importer [] [])\<lparr>v_templatePath := ''/none''\<rparr>)
     = Inl (ExternalError ''no such file'')
   \<and> NewVolumeImporter (example_ext example_template example_params)
        ''kubeconfig'' ''ns1'' ''pvc.yaml'' [(''size'', ''10Gi'')] ''/etc/importvolume''
     = Inr example_imported
   \<and> genVolumeHandle (example_ext example_template example_params) example_imported
     = Inr (v_volumeHandle example_imported)"
proof -
  let ?x = "example_ext (''Vol_${size}'' @ [CHR 0x0A]) []"
  let ?v = "example_importer [(''size'', ''10Gi'')] []"
  let ?u = "(example_importer [] [])\<lparr>v_templatePath := ''/none''\<rparr>"
  have h1: "ReadFile ?x (Join ?x (v_templatePath ?v) (sc_Provisioner (v_sc ?v)))
              = Inr (''Vol_${size}'' @ [CHR 0x0A])"
    by code_simp
  have h2: "uncovered (TrimSuffix (''Vol_${size}'' @ [CHR 0x0A]) [CHR 0x0A])
              (v_importParams ?v) = {}"
    by code_simp
  have h3: "fst (Expand (TrimSuffix (''Vol_${size}'' @ [CHR 0x0A]) [CHR 0x0A])
                   (lookupToken (v_importParams ?v)) sets_NewString) = ''Vol_10Gi''"
    by code_simp
  have h4: "IsDNS1123Subdomain ''Vol_10Gi'' \<noteq> []"
    by code_simp
  have h5: "ReadFile ?x (Join ?x (v_templatePath ?u) (sc_Provisioner (v_sc ?u)))
              = Inl (ExternalError ''no such file'')"
    by code_simp
  note T1 = genVolumeHandle_contract[where x = ?x and v = ?v
      and raw = "''Vol_${size}'' @ [CHR 0x0A]" and err = "ExternalError []" and t = "[]"
      and w = example_imported and kubeconfig = "''kubeconfig''" and ns = "''ns1''"
      and claimFile = "''pvc.yaml''" and importParams = "[(''size'', ''10Gi'')]"
      and templatePath = "''/etc/importvolume''"]
  note T2 = genVolumeHandle_contract[where x = ?x and v = ?u
      and raw = "[]" and err = "ExternalError ''no such file''" and t = "[]"
      and w = example_imported and kubeconfig = "''kubeconfig''" and ns = "''ns1''"
      and claimFile = "''pvc.yaml''" and importParams = "[(''size'', ''10Gi'')]"
      and templatePath = "''/etc/importvolume''"]
  note T3 = genVolumeHandle_contract[where x = "example_ext example_template example_params"
      and v = ?v and raw = "[]" and err = "ExternalError []" and t = "[]"
      and w = example_imported and kubeconfig = "''kubeconfig''" and ns = "''ns1''"
      and claimFile = "''pvc.yaml''" and importParams = "[(''size'', ''10Gi'')]"
      and templatePath = "''/etc/importvolume''"]
  from T1[THEN conjunct2, THEN conjunct1, THEN mp, OF h1, THEN conjunct1, THEN mp, OF h2] h3
  have c1: "genVolumeHandle ?x ?v = Inr ''Vol_10Gi''"
    by simp
  from T2[THEN conjunct1, THEN mp, OF h5]
  have c2: "genVolumeHandle ?x ?u = Inl (ExternalError ''no such file'')" .
  from T3[THEN conjunct2, THEN conjunct2, THEN conjunct2, THEN conjunct2, THEN conjunct1,
      THEN mp, OF example_run]
  have c3: "genVolumeHandle (example_ext example_template example_params) example_imported
              = Inr (v_volumeHandle example_imported)"
    by simp
  from h1 h2 c1 h4 h5 c2 example_run c3 show ?thesis
    by (intro conjI)
qed

text \<open>
  Claim C9. The filesystem type is empty when the volume mode is \<open>Block\<close>; otherwise it
  is the value of the key \<open>csi.storage.k8s.io/fsType\<close> of the storage class when the
  key is present, and empty when it is absent. The volume mode of an importer is that
  of its claim, its filesystem type is derived from it, and the volume record carries
  that filesystem type.
\<close>

theorem fsType_derivation:
  "(v_volumeMode v = Some PersistentVolumeBlock \<longrightarrow> genFsType v = [])
   \<and> (v_volumeMode v \<noteq> Some PersistentVolumeBlock
        \<and> map_of (sc_Parameters (v_sc v)) ''csi.storage.k8s.io/fsType'' = Some f
      \<longrightarrow> genFsType v = f)
   \<and> (v_volumeMode v \<noteq> Some PersistentVolumeBlock
        \<and> map_of (sc_Parameters (v_sc v)) ''csi.storage.k8s.io/fsType'' = None
      \<longrightarrow> genFsType v = [])
   \<and> (NewVolumeImporter x kubeconfig ns claimFile importParams templatePath = Inr w
      \<longrightarrow> v_volumeMode w = pvc_VolumeMode (v_pvc w) \<and> v_fsType w = genFsType w
          \<and> (\<forall>pv. CreatePersistentVolume pv \<in> set (fst (Import x w))
                \<longrightarrow> pv_CSI_FSType pv = v_fsType w))"
proof -
  have calls: "pv_CSI_FSType pv = v_fsType w"
    if "CreatePersistentVolume pv \<in> set (fst (Import x w))" for pv
    using that
    by (auto simp: Import_def createPV_def createPVC_def Let_def
        split: option.splits prod.splits)
  show ?thesis
    using calls
    by (auto simp: genFsType_def tokenFsTypeKey_def NewVolumeImporter_Inr)
qed

theorem fsType_derivation_witness:
  "v_volumeMode example_imported \<noteq> Some PersistentVolumeBlock
   \<and> map_of (sc_Parameters (v_sc example_imported)) ''csi.storage.k8s.io/fsType''
       = Some ''ext4''
   \<and> genFsType example_imported = ''ext4''
   \<and> v_volumeMode (example_imported\<lparr>v_volumeMode := Some ''Block''\<rparr>)
       = Some PersistentVolumeBlock
   \<and> genFsType (example_imported\<lparr>v_volumeMode := Some ''Block''\<rparr>) = []
   \<and> NewVolumeImporter (example_ext example_template example_params)
        ''kubeconfig'' ''ns1'' ''pvc.yaml'' [(''size'', ''10Gi'')] ''/etc/importvolume''
     = Inr example_imported
   \<and> v_fsType example_imported = genFsType example_imported"
proof -
  let ?b = "example_imported\<lparr>v_volumeMode := Some ''Block''\<rparr>"
  have h1: "v_volumeMode example_imported \<noteq> Some PersistentVolumeBlock"
    by code_simp
  have h2: "map_of (sc_Parameters (v_sc example_imported)) ''csi.storage.k8s.io/fsType''
              = Some ''ext4''"
    by code_simp
  have h3: "v_volumeMode ?b = Some PersistentVolumeBlock"
    by code_simp
  note T1 = fsType_derivation[where v = example_imported and f = "''ext4''"
      and x = "example_ext example_template example_params" and w = example_imported
      and kubeconfig = "''kubeconfig''" and ns = "''ns1''"
      and claimFile = "''pvc.yaml''" and importParams = "[(''size'', ''10Gi'')]"
      and templatePath = "''/etc/importvolume''"]
  note T2 = fsType_derivation[where v = ?b and f = "''ext4''"
      and x = "example_ext example_template example_params" and w = example_imported
      and kubeconfig = "''kubeconfig''" and ns = "''ns1''"
      and claimFile = "''pvc.yaml''" and importParams = "[(''size'', ''10Gi'')]"
      and templatePath = "''/etc/importvolume''"]
  from T1[THEN conjunct2, THEN conjunct1, THEN mp, OF conjI[OF h1 h2]]
  have c1: "genFsType example_imported = ''ext4''" .
  from T2[THEN conjunct1, THEN mp, OF h3]
  have c2: "genFsType ?b = []" .
  from T1[THEN conjunct2, THEN conjunct2, THEN conjunct2, THEN mp, OF example_run]
  have c3: "v_fsType example_imported = genFsType example_imported"
    by simp
  from h1 h2 c1 h3 c2 example_run c3 show ?thesis
    by (intro conjI)
qed

text \<open>
  Claim C10. The importer that \<open>NewVolumeImporter\<close> returns holds the claim with its
  namespace set to the target namespace, so the token \<open>pvc.namespace\<close> resolves to the
  target namespace and the claim record is created in it with that namespace; the
  result does not depend on the namespace written in the claim definition file.
\<close>

theorem claim_namespace_is_target:
  "(NewVolumeImporter x kubeconfig ns claimFile importParams templatePath = Inr w
      \<longrightarrow> v_namespace w = ns \<and> pvc_Namespace (v_pvc w) = ns
          \<and> map_of (resolveParams pvName (v_pvc w) isName) tokenPVCNamespaceKey = Some ns
          \<and> (\<forall>n p. CreatePersistentVolumeClaim n p \<in> set (fst (Import x w))
                \<longrightarrow> n = ns \<and> pvc_Namespace p = ns)
          \<and> (\<forall>pv. CreatePersistentVolume pv \<in> set (fst (Import x w))
                \<longrightarrow> pv_ClaimRef_Namespace pv = ns))
   \<and> NewVolumeImporter
         (x\<lparr>Decode := \<lambda>bytes.
               (case Decode x bytes of
                  Inr (PersistentVolumeClaimObject p) \<Rightarrow>
                    Inr (PersistentVolumeClaimObject (p\<lparr>pvc_Namespace := other\<rparr>))
                | r \<Rightarrow> r)\<rparr>)
         kubeconfig ns claimFile importParams templatePath
       = NewVolumeImporter x kubeconfig ns claimFile importParams templatePath"
proof (intro conjI impI)
  assume w: "NewVolumeImporter x kubeconfig ns claimFile importParams templatePath = Inr w"
  note f = NewVolumeImporter_Inr[OF w]
  show "v_namespace w = ns" "pvc_Namespace (v_pvc w) = ns"
    by (simp_all add: f)
  show "map_of (resolveParams pvName (v_pvc w) isName) tokenPVCNamespaceKey = Some ns"
    by (simp add: resolveParams_base f)
  show "\<forall>n p. CreatePersistentVolumeClaim n p \<in> set (fst (Import x w))
                \<longrightarrow> n = ns \<and> pvc_Namespace p = ns"
    using f(1,2)
    by (auto simp: Import_def createPV_def createPVC_def Let_def
        split: option.splits prod.splits)
  show "\<forall>pv. CreatePersistentVolume pv \<in> set (fst (Import x w))
                \<longrightarrow> pv_ClaimRef_Namespace pv = ns"
    using f(2)
    by (auto simp: Import_def createPV_def createPVC_def Let_def
        split: option.splits prod.splits)
next
  let ?x' = "x\<lparr>Decode := \<lambda>bytes.
               (case Decode x bytes of
                  Inr (PersistentVolumeClaimObject p) \<Rightarrow>
                    Inr (PersistentVolumeClaimObject (p\<lparr>pvc_Namespace := other\<rparr>))
                | r \<Rightarrow> r)\<rparr>"
  have g: "genVolumeHandle ?x' u = genVolumeHandle x u" for u
    by (simp add: genVolumeHandle_def)
  show "NewVolumeImporter ?x' kubeconfig ns claimFile importParams templatePath
       = NewVolumeImporter x kubeconfig ns claimFile importParams templatePath"
    by (simp add: NewVolumeImporter_def parsePVCfile_def g
        split: sum.splits Object.splits option.splits)
qed

theorem claim_namespace_is_target_witness:
  "NewVolumeImporter (example_ext example_template example_params)
        ''kubeconfig'' ''ns1'' ''pvc.yaml'' [(''size'', ''10Gi'')] ''/etc/importvolume''
     = Inr example_imported
   \<and> pvc_Namespace example_pvc = ''from-file''
   \<and> pvc_Namespace (v_pvc example_imported) = ''ns1''
   \<and> map_of (resolveParams ''pv-foo'' (v_pvc example_imported) True) tokenPVCNamespaceKey
       = Some ''ns1''"
proof -
  note T = claim_namespace_is_target[where x = "example_ext example_template example_params"
      and w = example_imported and kubeconfig = "''kubeconfig''" and ns = "''ns1''"
      and claimFile = "''pvc.yaml''" and importParams = "[(''size'', ''10Gi'')]"
      and templatePath = "''/etc/importvolume''" and pvName = "''pv-foo''" and isName = True
      and other = "[]"]
  have f: "pvc_Namespace example_pvc = ''from-file''"
    by (simp add: example_pvc_def)
  from T[THEN conjunct1, THEN mp, OF example_run]
  have "pvc_Namespace (v_pvc example_imported) = ''ns1''
   \<and> map_of (resolveParams ''pv-foo'' (v_pvc example_imported) True) tokenPVCNamespaceKey
       = Some ''ns1''"
    by simp
  with example_run f show ?thesis
    by simp
qed

text \<open>
  Claim C1 fails on the code. With a storage class that configures the name of the
  node-stage secret without its namespace, \<open>GetSecret\<close> fails and \<open>setSecret\<close> returns
  that error, but \<open>NewVolumeImporter\<close> calls \<open>setSecret\<close> as a statement and drops what
  it returns: the run goes on, issues both create calls (the volume without secret
  references) and ends normally.
\<close>

theorem setSecret_error_discarded:
  "GetSecret [(''csi.storage.k8s.io/node-stage-secret-name'', ''stage-secret'')]
     NodeStageSecret ''pv-foo'' (example_pvc\<lparr>pvc_Namespace := ''ns1''\<rparr>)
     = Inl (OnlyNamespaceOrName [] ''stage-secret''
         [(''csi.storage.k8s.io/node-stage-secret-name'', ''stage-secret'')])
   \<and> (case NewVolumeImporter
         (example_ext example_template
            [(''csi.storage.k8s.io/node-stage-secret-name'', ''stage-secret'')])
         ''kubeconfig'' ''ns1'' ''pvc.yaml'' [(''size'', ''10Gi'')] ''/etc/importvolume'' of
        Inl err \<Rightarrow> False
      | Inr v \<Rightarrow>
          snd (setSecret v)
            = Some (OnlyNamespaceOrName [] ''stage-secret''
                [(''csi.storage.k8s.io/node-stage-secret-name'', ''stage-secret'')]))
   \<and> main (example_ext example_template
            [(''csi.storage.k8s.io/node-stage-secret-name'', ''stage-secret'')])
        ''kubeconfig'' ''ns1'' ''pvc.yaml'' [(''size'', ''10Gi'')] ''/etc/importvolume''
     = ([CreatePersistentVolume
          \<lparr>pv_Name = ''pv-foo'',
           pv_Annotations = [(''pv.kubernetes.io/provisioned-by'', ''csi.example.com'')],
           pv_StorageClassName = ''fast'', pv_Capacity = [(''storage'', 10)],
           pv_AccessModes = [''ReadWriteOnce''],
           pv_ClaimRef_Kind = ''PersistentVolumeClaim'',
           pv_ClaimRef_APIVersion = ''v1'', pv_ClaimRef_Namespace = ''ns1'',
           pv_ClaimRef_Name = ''foo'', pv_CSI_Driver = ''csi.example.com'',
           pv_CSI_VolumeHandle = ''vol-10Gi'',
           pv_CSI_ControllerPublishSecretRef = None,
           pv_CSI_NodeStageSecretRef = None, pv_CSI_NodePublishSecretRef = None,
           pv_CSI_ControllerExpandSecretRef = None,
           pv_CSI_VolumeAttributes = [], pv_CSI_FSType = [],
           pv_CSI_ReadOnly = False\<rparr>,
         CreatePersistentVolumeClaim ''ns1'' (example_pvc\<lparr>pvc_Namespace := ''ns1''\<rparr>)],
        ExitOK)"
  by code_simp


end
